theory Spec2Isabelle
  imports Complex_Main
begin

section \<open>Python values\<close>

text \<open>
  A Python \<open>str\<close> is a sequence of Unicode code points; \<open>len\<close> and slicing count code
  points, so a text is a list of code points. \<open>lit\<close> reads an ASCII literal.
\<close>

type_synonym pystr = "nat list"

definition lit :: "string \<Rightarrow> pystr" where
  "lit s = map of_char s"

text \<open>
  Exceptions are values. \<open>RequestException\<close> is the class
  \<open>requests.exceptions.RequestException\<close> (transport errors, time-outs and, through
  \<open>raise_for_status\<close>, every HTTP error status); \<open>ValueError\<close> and
  \<open>ZeroDivisionError\<close> are raised by \<open>float\<close>, by \<open>/\<close> and by \<open>urljoin\<close>;
  \<open>OtherException\<close> stands for any other subclass of \<open>Exception\<close>.
  \<open>KeyboardInterrupt\<close> is the operator's interrupt; it is no subclass of
  \<open>Exception\<close>, so a handler \<open>except Exception\<close> lets it pass.
\<close>

datatype exn = RequestException | ValueError | ZeroDivisionError | OtherException | KeyboardInterrupt

section \<open>The fetcher: \<open>safe_request\<close>\<close>

text \<open>
  One retrieval attempt is \<open>session.get\<close>, \<open>raise_for_status\<close> and the parse of the
  body: it yields the parsed page or raises. The network is a parameter: \<open>net n url\<close>
  is the outcome of the attempt on \<open>url\<close> made after \<open>n\<close> earlier attempts of the run.
  The scraper's state carries the log of attempted URLs, so the number of attempts made
  so far is the length of that log. The randomised sleeps before an attempt and between
  retries have no effect on the values computed and are left out.
\<close>

datatype 'soup response = Content 'soup | Raises exn

type_synonym 'soup network = "nat \<Rightarrow> pystr \<Rightarrow> 'soup response"

text \<open>
  \<^verbatim>\<open>
  def safe_request(self, url, max_retries=3):
      for attempt in range(max_retries):
          try:
              time.sleep(random.uniform(1, 3))
              response = self.session.get(url, timeout=30)
              response.raise_for_status()
              return BeautifulSoup(response.content, 'lxml')
          except requests.exceptions.RequestException as e:
              if attempt == max_retries - 1:
                  return None
              time.sleep(random.uniform(2, 5))
      return None
  \<close>
  The loop over \<open>range(max_retries)\<close> is a recursion on \<open>attempt\<close>. An exception that
  is no \<open>RequestException\<close> is not caught and leaves the function (\<open>Inl\<close>).
\<close>

function safe_request_loop ::
  "'soup network \<Rightarrow> pystr \<Rightarrow> int \<Rightarrow> int \<Rightarrow> pystr list \<Rightarrow> (exn + 'soup option) \<times> pystr list"
where
  "safe_request_loop net url max_retries attempt reqs =
     (if attempt < max_retries then
        (case net (length reqs) url of
           Content soup \<Rightarrow> (Inr (Some soup), reqs @ [url])
         | Raises RequestException \<Rightarrow>
             (if attempt = max_retries - 1 then (Inr None, reqs @ [url])
              else safe_request_loop net url max_retries (attempt + 1) (reqs @ [url]))
         | Raises e \<Rightarrow> (Inl e, reqs @ [url]))
      else (Inr None, reqs))"
  by pat_completeness auto
termination
  by (relation "measure (\<lambda>(net, url, max_retries, attempt, reqs). nat (max_retries - attempt))") auto

definition safe_request ::
  "'soup network \<Rightarrow> pystr \<Rightarrow> int \<Rightarrow> pystr list \<Rightarrow> (exn + 'soup option) \<times> pystr list"
where
  "safe_request net url max_retries reqs = safe_request_loop net url max_retries 0 reqs"

text \<open>Two networks for the retry scenarios: one that fails twice and then answers,
  one that never answers.\<close>

definition flaky :: "unit network" where
  "flaky n url = (if n < 2 then Raises RequestException else Content ())"

definition down :: "'soup network" where
  "down n url = Raises RequestException"


section \<open>The Python runtime as a parameter\<close>

text \<open>
  The scrapers lean on the interpreter and on three libraries (\<open>re\<close>, \<open>bs4\<close>,
  \<open>urllib\<close>). What they compute with Unicode tables, with the regular-expression
  engine or with the hash order of a \<open>set\<close> is not code of the repository; it enters
  the model as the fields of one record. A theorem holds for every runtime, or says
  what it asks of it (\<open>runtime_ok\<close>, \<open>digits_ok\<close> below).
  \<^item> \<open>digit\<close>: the decimal value of a code point of category Nd (what \<open>\d\<close> matches and
    \<open>float\<close> reads), \<open>None\<close> for any other code point;
  \<^item> \<open>isspace\<close>: the white space of \<open>str.strip\<close> and of \<open>\s\<close>;
  \<^item> \<open>isalpha\<close>: \<open>str.isalpha\<close> on one code point; \<open>isword\<close>: what \<open>\w\<close> matches;
  \<^item> \<open>lower\<close>, \<open>title\<close>: \<open>str.lower\<close> and \<open>str.title\<close>;
  \<^item> \<open>set_order\<close>, \<open>set_order_links\<close>: the order in which \<open>list(set(xs))\<close> lists the
    elements of \<open>xs\<close>, for a list of strings and for a list of pairs of strings; it
    depends on the hash seed of the process;
  \<^item> \<open>findall_desc i\<close>, \<open>search_ingredients i\<close>, \<open>search_size i\<close>: \<open>re.findall\<close> and
    the first group of \<open>re.search\<close> for the \<open>i\<close>-th pattern of the description,
    ingredient and unit-size pattern lists;
  \<^item> \<open>search_sku\<close>: the path of the URL (\<open>urlparse\<close>) searched for its last segment;
  \<^item> \<open>urljoin\<close>: \<open>urllib.parse.urljoin\<close>, which raises \<open>ValueError\<close> on a malformed
    reference.
\<close>

record rt =
  digit :: "nat \<Rightarrow> nat option"
  isspace :: "nat \<Rightarrow> bool"
  isalpha :: "nat \<Rightarrow> bool"
  isword :: "nat \<Rightarrow> bool"
  lower :: "pystr \<Rightarrow> pystr"
  title :: "pystr \<Rightarrow> pystr"
  set_order :: "pystr list \<Rightarrow> pystr list"
  set_order_links :: "(pystr \<times> pystr) list \<Rightarrow> (pystr \<times> pystr) list"
  findall_desc :: "nat \<Rightarrow> pystr \<Rightarrow> pystr list"
  search_ingredients :: "nat \<Rightarrow> pystr \<Rightarrow> pystr option"
  search_size :: "nat \<Rightarrow> pystr \<Rightarrow> pystr option"
  search_sku :: "pystr \<Rightarrow> pystr option"
  urljoin :: "pystr \<Rightarrow> pystr \<Rightarrow> exn + pystr"

definition isdigit :: "rt \<Rightarrow> nat \<Rightarrow> bool" where
  "isdigit R c \<longleftrightarrow> digit R c \<noteq> None"

subsection \<open>Substring tests\<close>

text \<open>\<open>startswith\<close>, \<open>needle in text\<close> and \<open>text.find(needle)\<close> of Python.\<close>

fun startswith :: "pystr \<Rightarrow> pystr \<Rightarrow> bool" where
  "startswith text [] = True"
| "startswith [] (c # cs) = False"
| "startswith (t # ts) (c # cs) = (t = c \<and> startswith ts cs)"

fun py_in :: "pystr \<Rightarrow> pystr \<Rightarrow> bool" where
  "py_in needle [] = (needle = [])"
| "py_in needle (t # ts) = (startswith (t # ts) needle \<or> py_in needle ts)"

fun py_find :: "pystr \<Rightarrow> pystr \<Rightarrow> nat option" where
  "py_find [] needle = (if needle = [] then Some 0 else None)"
| "py_find (t # ts) needle =
     (if startswith (t # ts) needle then Some 0 else map_option Suc (py_find ts needle))"

section \<open>IEEE 754 double precision, as far as the discount needs it\<close>

text \<open>
  A Python \<open>float\<close> is a binary64 number: a rational of the form \<open>m \<times> 2\<^sup>e\<close> with
  \<open>|m| < 2\<^sup>5\<^sup>3\<close> and \<open>e \<ge> -1074\<close>, an infinity or NaN. The sign of zero is not
  modelled: the operands below are amounts read from digit strings, never negative.
  \<open>rnd\<close> rounds an exact result to the nearest double, ties to the even significand,
  overflowing to infinity, which is how \<open>float(str)\<close>, \<open>-\<close>, \<open>/\<close> and \<open>*\<close> round.
\<close>

datatype pyfloat = Fin rat | PInf | NInf | NaN

function bit_length :: "int \<Rightarrow> int" where
  \<comment> \<open>\<open>int.bit_length\<close> for a number that is not negative\<close>
  "bit_length n = (if n \<le> 0 then 0 else 1 + bit_length (n div 2))"
  by pat_completeness auto
termination
  by (relation "measure nat") auto

declare bit_length.simps [simp del]

definition pow2 :: "int \<Rightarrow> rat" where
  "pow2 e = (if 0 \<le> e then 2 ^ nat e else 1 / 2 ^ nat (- e))"

definition floor_log2 :: "rat \<Rightarrow> int" where
  \<comment> \<open>for \<open>q > 0\<close>: the \<open>e\<close> with \<open>2\<^sup>e \<le> q < 2\<^sup>e\<^sup>+\<^sup>1\<close>\<close>
  "floor_log2 q =
     (let (a, b) = quotient_of q;
          t = bit_length a - bit_length b
      in if pow2 t \<le> q then t else t - 1)"

definition rne :: "rat \<Rightarrow> int" where
  \<comment> \<open>round to the nearest integer, ties to even\<close>
  "rne q =
     (let f = \<lfloor>q\<rfloor>; d = q - of_int f
      in if d < 1 / 2 then f else if 1 / 2 < d then f + 1
         else if even f then f else f + 1)"

definition rnd_pos :: "rat \<Rightarrow> pyfloat" where
  \<comment> \<open>for \<open>q > 0\<close>; the result overflows when it reaches \<open>2\<^sup>1\<^sup>0\<^sup>2\<^sup>4\<close>\<close>
  "rnd_pos q =
     (let e0 = floor_log2 q;
          e = max (e0 - 52) (- 1074);
          m = rne (q / pow2 e)
      in if 1024 \<le> e0 \<or> (e0 = 1023 \<and> m = 2 ^ 53) then PInf
         else Fin (of_int m * pow2 e))"

definition fneg :: "pyfloat \<Rightarrow> pyfloat" where
  "fneg x = (case x of Fin v \<Rightarrow> Fin (- v) | PInf \<Rightarrow> NInf | NInf \<Rightarrow> PInf | NaN \<Rightarrow> NaN)"

definition rnd :: "rat \<Rightarrow> pyfloat" where
  "rnd q = (if q = 0 then Fin 0 else if q < 0 then fneg (rnd_pos (- q)) else rnd_pos q)"

fun fgt :: "pyfloat \<Rightarrow> pyfloat \<Rightarrow> bool" where
  \<comment> \<open>\<open>x > y\<close>\<close>
  "fgt NaN y = False"
| "fgt x NaN = False"
| "fgt (Fin a) (Fin b) = (b < a)"
| "fgt PInf PInf = False"
| "fgt PInf y = True"
| "fgt x PInf = False"
| "fgt NInf y = False"
| "fgt (Fin a) NInf = True"

fun fsub :: "pyfloat \<Rightarrow> pyfloat \<Rightarrow> pyfloat" where
  "fsub NaN y = NaN"
| "fsub x NaN = NaN"
| "fsub (Fin a) (Fin b) = rnd (a - b)"
| "fsub PInf PInf = NaN"
| "fsub NInf NInf = NaN"
| "fsub PInf y = PInf"
| "fsub NInf y = NInf"
| "fsub (Fin a) PInf = NInf"
| "fsub (Fin a) NInf = PInf"

fun fmul :: "pyfloat \<Rightarrow> pyfloat \<Rightarrow> pyfloat" where
  "fmul NaN y = NaN"
| "fmul x NaN = NaN"
| "fmul (Fin a) (Fin b) = rnd (a * b)"
| "fmul (Fin a) y = (if a = 0 then NaN else if 0 < a then y else fneg y)"
| "fmul x (Fin b) = (if b = 0 then NaN else if 0 < b then x else fneg x)"
| "fmul PInf y = y"
| "fmul NInf y = fneg y"

fun fdiv :: "pyfloat \<Rightarrow> pyfloat \<Rightarrow> pyfloat" where
  \<comment> \<open>the quotient for a divisor other than zero\<close>
  "fdiv NaN y = NaN"
| "fdiv x NaN = NaN"
| "fdiv (Fin a) (Fin b) = rnd (a / b)"
| "fdiv (Fin a) y = Fin 0"
| "fdiv x (Fin b) = (if 0 < b then x else fneg x)"
| "fdiv x y = NaN"

text \<open>Python's \<open>/\<close> on floats raises \<open>ZeroDivisionError\<close> for a zero divisor.\<close>

definition py_div :: "pyfloat \<Rightarrow> pyfloat \<Rightarrow> exn + pyfloat" where
  "py_div x y = (if y = Fin 0 then Inl ZeroDivisionError else Inr (fdiv x y))"

subsection \<open>Reading and printing\<close>

text \<open>
  \<open>float(s)\<close> for a string of digits with an optional fraction, which is the only shape
  that reaches it here; any other string is answered \<open>ValueError\<close>. The value of the
  decimal numeral is rounded once, to the nearest double.
\<close>

definition digits_value :: "rt \<Rightarrow> pystr \<Rightarrow> int" where
  "digits_value R ds = foldl (\<lambda>n c. 10 * n + int (the (digit R c))) 0 ds"

definition py_float :: "rt \<Rightarrow> pystr \<Rightarrow> exn + pyfloat" where
  "py_float R s =
     (let ip = takeWhile (isdigit R) s; rest = drop (length ip) s
      in if ip = [] then Inl ValueError
         else if rest = [] then Inr (rnd (of_int (digits_value R ip)))
         else if hd rest = 46 \<and> tl rest \<noteq> [] \<and> list_all (isdigit R) (tl rest)
           then Inr (rnd (of_int (digits_value R (ip @ tl rest)) / 10 ^ length (tl rest)))
         else Inl ValueError)"

text \<open>The decimal digits of a natural number, most significant first (\<open>str(n)\<close>).\<close>

fun dec_digits :: "nat \<Rightarrow> pystr" where
  "dec_digits n = (if n < 10 then [48 + n] else dec_digits (n div 10) @ [48 + n mod 10])"

declare dec_digits.simps [simp del]

text \<open>
  \<open>f"{x:.1f}"\<close>: the exact value of the double, rounded to one decimal place, ties to
  even; infinities and NaN print as words.
\<close>

definition fmt1 :: "pyfloat \<Rightarrow> pystr" where
  "fmt1 x =
     (case x of
        Fin v \<Rightarrow>
          (let n = nat (rne (\<bar>v\<bar> * 10))
           in (if v < 0 then lit ''-'' else []) @ dec_digits (n div 10) @ lit ''.'' @ dec_digits (n mod 10))
      | PInf \<Rightarrow> lit ''inf''
      | NInf \<Rightarrow> lit ''-inf''
      | NaN \<Rightarrow> lit ''nan'')"

section \<open>Price extraction: \<open>extract_price_info\<close>\<close>

definition rupee :: nat where
  \<comment> \<open>U+20B9, the rupee sign\<close>
  "rupee = 8377"

text \<open>
  \<open>re.findall(r'\<rupee>(\d+(?:,\d+)*(?:\.\d+)?)', text)\<close>, with \<open>\<rupee>\<close> for the rupee sign.
  Every part after the first digit run is optional and greedy, so a match at a rupee
  sign followed by a digit is the longest one: the digit run, every following group of
  a comma and a digit run, and one fraction of a dot and a digit run. The scan resumes
  behind the match; the list holds group 1 of each match in document order.
\<close>

definition digit_run :: "rt \<Rightarrow> pystr \<Rightarrow> pystr" where
  "digit_run R text = takeWhile (isdigit R) text"

function comma_groups :: "rt \<Rightarrow> pystr \<Rightarrow> pystr" where
  "comma_groups R text =
     (case text of
        [] \<Rightarrow> []
      | c # rest \<Rightarrow>
          (if c = 44 \<and> digit_run R rest \<noteq> []
           then c # digit_run R rest @ comma_groups R (drop (length (digit_run R rest)) rest)
           else []))"
  by pat_completeness auto
termination
  by (relation "measure (\<lambda>(R, text). length text)") auto

declare comma_groups.simps [simp del]

definition fraction :: "rt \<Rightarrow> pystr \<Rightarrow> pystr" where
  "fraction R text =
     (case text of
        [] \<Rightarrow> []
      | c # rest \<Rightarrow> (if c = 46 \<and> digit_run R rest \<noteq> [] then c # digit_run R rest else []))"

definition amount :: "rt \<Rightarrow> pystr \<Rightarrow> pystr" where
  \<comment> \<open>group 1 of a match that starts at the digit behind a rupee sign\<close>
  "amount R text =
     (let ds = digit_run R text;
          gs = comma_groups R (drop (length ds) text);
          fr = fraction R (drop (length ds + length gs) text)
      in ds @ gs @ fr)"

function findall_price :: "rt \<Rightarrow> pystr \<Rightarrow> pystr list" where
  "findall_price R text =
     (case text of
        [] \<Rightarrow> []
      | c # rest \<Rightarrow>
          (if c = rupee \<and> digit_run R rest \<noteq> []
           then amount R rest # findall_price R (drop (length (amount R rest)) rest)
           else findall_price R rest))"
  by pat_completeness auto
termination
  by (relation "measure (\<lambda>(R, text). length text)") auto

declare findall_price.simps [simp del]

text \<open>\<open>re.sub(r'[\<rupee>,]', '', s)\<close>: the rupee signs and commas are deleted.\<close>

definition sub_rupee_comma :: "pystr \<Rightarrow> pystr" where
  "sub_rupee_comma s = filter (\<lambda>c. c \<noteq> rupee \<and> c \<noteq> 44) s"

text \<open>
  \<^verbatim>\<open>
  try:
      current_val = float(re.sub(r'[\<rupee>,]', '', current_price))
      original_val = float(re.sub(r'[\<rupee>,]', '', original_price))
      if original_val > current_val:
          discount_pct = f"{((original_val - current_val) / original_val * 100):.1f}%"
  except (ValueError, ZeroDivisionError):
      pass
  \<close>
  The body of the \<open>try\<close>, with its value the new \<open>discount_pct\<close>.
\<close>

definition calculate_discount :: "rt \<Rightarrow> pystr \<Rightarrow> pystr \<Rightarrow> exn + pystr" where
  "calculate_discount R current_price original_price =
     (case py_float R (sub_rupee_comma current_price) of
        Inl e \<Rightarrow> Inl e
      | Inr current_val \<Rightarrow>
          (case py_float R (sub_rupee_comma original_price) of
             Inl e \<Rightarrow> Inl e
           | Inr original_val \<Rightarrow>
               (if fgt original_val current_val
                then (case py_div (fsub original_val current_val) original_val of
                        Inl e \<Rightarrow> Inl e
                      | Inr q \<Rightarrow> Inr (fmt1 (fmul q (Fin 100)) @ lit ''%''))
                else Inr [])))"

text \<open>
  \<^verbatim>\<open>
  def extract_price_info(self, price_text):
      current_price = ""; original_price = ""; discount_pct = ""
      if not price_text:
          return current_price, original_price, discount_pct
      price_matches = re.findall(r'\<rupee>(\d+(?:,\d+)*(?:\.\d+)?)', price_text)
      if price_matches:
          current_price = f"\<rupee>{price_matches[0]}"
          if len(price_matches) > 1:
              original_price = f"\<rupee>{price_matches[1]}"
              (the try block above)
      return current_price, original_price, discount_pct
  \<close>
  The same text is in the comprehensive and in the targeted scraper. The \<open>try\<close> body
  raises nothing but the two exceptions its handler names, so every \<open>Inl\<close> is handled.
\<close>

definition extract_price_info :: "rt \<Rightarrow> pystr \<Rightarrow> pystr \<times> pystr \<times> pystr" where
  "extract_price_info R price_text =
     (if price_text = [] then ([], [], [])
      else
        (case findall_price R price_text of
           [] \<Rightarrow> ([], [], [])
         | m0 # ms \<Rightarrow>
             (let current_price = rupee # m0
              in case ms of
                   [] \<Rightarrow> (current_price, [], [])
                 | m1 # _ \<Rightarrow>
                     (let original_price = rupee # m1
                      in case calculate_discount R current_price original_price of
                           Inr discount_pct \<Rightarrow> (current_price, original_price, discount_pct)
                         | Inl e \<Rightarrow> (current_price, original_price, [])))))"

text \<open>
  The value that the comparison sees for an amount: \<open>float\<close> of the amount without its
  commas, and NaN, which compares false with everything, where \<open>float\<close> would raise.
\<close>

definition amount_float :: "rt \<Rightarrow> pystr \<Rightarrow> pyfloat" where
  "amount_float R a =
     (case py_float R (sub_rupee_comma (rupee # a)) of Inr x \<Rightarrow> x | Inl e \<Rightarrow> NaN)"

text \<open>
  In Unicode neither the comma nor the full stop nor the rupee sign is a decimal digit.
\<close>

definition digits_ok :: "rt \<Rightarrow> bool" where
  "digits_ok R \<longleftrightarrow> \<not> isdigit R 44 \<and> \<not> isdigit R 46 \<and> \<not> isdigit R rupee"

text \<open>
  A runtime for the examples: ASCII digits, ASCII white space, ASCII lower-casing, a
  \<open>set\<close> that happens to list its elements in reverse, and no match for the patterns
  that are taken as parameters.
\<close>

definition ascii_lower :: "pystr \<Rightarrow> pystr" where
  "ascii_lower s = map (\<lambda>c. if 65 \<le> c \<and> c \<le> 90 then c + 32 else c) s"

fun ascii_title_from :: "bool \<Rightarrow> pystr \<Rightarrow> pystr" where
  "ascii_title_from inside [] = []"
| "ascii_title_from inside (c # cs) =
     (if 97 \<le> c \<and> c \<le> 122 then (if inside then c else c - 32) # ascii_title_from True cs
      else if 65 \<le> c \<and> c \<le> 90 then (if inside then c + 32 else c) # ascii_title_from True cs
      else c # ascii_title_from False cs)"

definition ascii_rt :: rt where
  "ascii_rt =
     \<lparr> digit = (\<lambda>c. if 48 \<le> c \<and> c \<le> 57 then Some (c - 48) else None),
       isspace = (\<lambda>c. c = 32 \<or> (9 \<le> c \<and> c \<le> 13)),
       isalpha = (\<lambda>c. (65 \<le> c \<and> c \<le> 90) \<or> (97 \<le> c \<and> c \<le> 122)),
       isword = (\<lambda>c. (48 \<le> c \<and> c \<le> 57) \<or> (65 \<le> c \<and> c \<le> 90) \<or> c = 95
                    \<or> (97 \<le> c \<and> c \<le> 122)),
       lower = ascii_lower,
       title = ascii_title_from False,
       set_order = (\<lambda>xs. rev (remdups xs)),
       set_order_links = (\<lambda>xs. rev (remdups xs)),
       findall_desc = (\<lambda>i text. []),
       search_ingredients = (\<lambda>i text. None),
       search_size = (\<lambda>i text. None),
       search_sku = (\<lambda>url. None),
       urljoin = (\<lambda>base ref. Inr (base @ ref)) \<rparr>"


section \<open>Products and pages\<close>

text \<open>
  \<open>Product\<close> and \<open>PerfectProduct\<close> are dataclasses whose attributes all hold strings. An
  instance is a total function from attribute names to strings, so that "every field
  but the name" is a quantifier over \<open>field\<close>. The first 21 names are the attributes of
  \<open>Product\<close>; \<open>PerfectProduct\<close> has all 35.
\<close>

datatype field =
    product_name | category | subcategory | price_current | price_original
  | discount_percentage | product_description | product_image_url | product_page_url
  | availability_status | brand_name | unit_size | packaging_type | nutritional_info
  | ingredients | product_id | sku_code | rating | review_count | tags | scraped_timestamp
  | no_of_pieces | fillet_size | meat_content | weight_variation | shelf_life
  | storage_instructions | thawing_instructions | cooking_instructions | serving_suggestions
  | key_features | product_highlights | premium_ingredients | health_conscious_info
  | allergen_info

type_synonym product = "field \<Rightarrow> pystr"

definition Product :: product where
  \<comment> \<open>\<open>Product()\<close>: every attribute empty but the brand\<close>
  "Product = (\<lambda>f. [])(brand_name := lit ''Hyperpure'')"

definition PerfectProduct :: product where
  "PerfectProduct = (\<lambda>f. [])(availability_status := lit ''In Stock'', brand_name := lit ''Hyperpure'')"

text \<open>
  A parsed page (\<open>BeautifulSoup\<close>), as far as the comprehensive scraper looks at it:
  the text of the first \<open>title\<close> and \<open>h1\<close> elements if there are any, \<open>get_text()\<close>, the
  \<open>src\<close> and \<open>data-src\<close> attributes of every \<open>img\<close> and the \<open>href\<close> and text of
  every \<open>a\<close> that has an \<open>href\<close>, in document order.
\<close>

record soup =
  title_tag :: "pystr option"
  h1_tag :: "pystr option"
  get_text :: pystr
  img_tags :: "(pystr option \<times> pystr option) list"
  a_tags :: "(pystr \<times> pystr) list"

text \<open>
  The scraper object: the set \<open>scraped_urls\<close>, the list \<open>products\<close>, and with them
  the log of the retrieval attempts made so far.
\<close>

record scraper =
  scraped_urls :: "pystr set"
  products :: "product list"
  requests :: "pystr list"

definition base_url :: pystr where
  "base_url = lit ''https://www.hyperpure.com''"

subsection \<open>\<open>clean_text\<close>\<close>

definition strip :: "rt \<Rightarrow> pystr \<Rightarrow> pystr" where
  "strip R s = rev (dropWhile (isspace R) (rev (dropWhile (isspace R) s)))"

function collapse_spaces :: "rt \<Rightarrow> pystr \<Rightarrow> pystr" where
  \<comment> \<open>\<open>re.sub(r'\s+', ' ', s)\<close>\<close>
  "collapse_spaces R s =
     (case s of
        [] \<Rightarrow> []
      | c # cs \<Rightarrow>
          (if isspace R c then 32 # collapse_spaces R (dropWhile (isspace R) cs)
           else c # collapse_spaces R cs))"
  by pat_completeness auto
termination
  by (relation "measure (\<lambda>(R, s). length s)") (auto simp: length_dropWhile_le less_Suc_eq_le)

declare collapse_spaces.simps [simp del]

definition double_quotes :: "pystr \<Rightarrow> pystr" where
  \<comment> \<open>\<open>s.replace('"', '""')\<close>\<close>
  "double_quotes s = concat (map (\<lambda>c. if c = 34 then [34, 34] else [c]) s)"

text \<open>
  \<^verbatim>\<open>
  def clean_text(self, text):
      if not text:
          return ""
      cleaned = re.sub(r'\s+', ' ', text.strip())
      cleaned = cleaned.replace('"', '""')
      return cleaned
  \<close>
\<close>

definition clean_text :: "rt \<Rightarrow> pystr \<Rightarrow> pystr" where
  "clean_text R text =
     (if text = [] then [] else double_quotes (collapse_spaces R (strip R text)))"

text \<open>\<open>s.split(sep)[0]\<close>: the part of \<open>s\<close> before the first \<open>sep\<close>, all of \<open>s\<close> without one.\<close>

fun split_first :: "pystr \<Rightarrow> pystr \<Rightarrow> pystr" where
  "split_first [] sep = []"
| "split_first (c # cs) sep = (if startswith (c # cs) sep then [] else c # split_first cs sep)"

text \<open>\<open>sep.join(xs)\<close>.\<close>

fun join :: "pystr \<Rightarrow> pystr list \<Rightarrow> pystr" where
  "join sep [] = []"
| "join sep [x] = x"
| "join sep (x # y # ys) = x @ sep @ join sep (y # ys)"

subsection \<open>\<open>extract_unit_size\<close>\<close>

text \<open>
  \<^verbatim>\<open>
  def extract_unit_size(self, text):
      if not text:
          return ""
      for pattern in size_patterns:           # four patterns
          match = re.search(pattern, text, re.IGNORECASE)
          if match:
              return match.group(1).strip()
      return ""
  \<close>
\<close>

fun first_size :: "rt \<Rightarrow> pystr \<Rightarrow> nat list \<Rightarrow> pystr" where
  "first_size R text [] = []"
| "first_size R text (i # is) =
     (case search_size R i text of Some g \<Rightarrow> strip R g | None \<Rightarrow> first_size R text is)"

definition extract_unit_size :: "rt \<Rightarrow> pystr \<Rightarrow> pystr" where
  "extract_unit_size R text = (if text = [] then [] else first_size R text [0, 1, 2, 3])"


section \<open>The listing stage: \<open>extract_products_from_page\<close>\<close>

text \<open>
  \<open>get_category_name_from_url\<close>: the last segment of the path, looked up in the
  category map, with the title-cased slug as the default.
\<close>

definition category_map :: "(string \<times> string) list" where
  "category_map =
     [(''Menu-Addons'', ''Menu Add-ons''),
      (''brownies-cakes-and-lava'', ''Brownies, Cakes and Lava''),
      (''chicken-breast-boneless'', ''Chicken''),
      (''cheese'', ''Cheese''),
      (''curd'', ''Curd/Yogurt''),
      (''ghee'', ''Ghee''),
      (''milk-milk-powder'', ''Milk & Milk Powder''),
      (''butter'', ''Butter''),
      (''paneer'', ''Paneer''),
      (''cream'', ''Cream''),
      (''eggs'', ''Eggs''),
      (''tomato-onion-potato'', ''Tomato, Onion, Potato''),
      (''edible-oils'', ''Edible Oils''),
      (''salts-sugars'', ''Salt & Sugar''),
      (''pasta-noodles'', ''Pasta & Noodles''),
      (''rice-rice-products'', ''Rice & Rice Products''),
      (''atta-maida-sooji'', ''Atta, Maida, Sooji''),
      (''corn-flour-besan-others'', ''Corn Flour, Besan & Others''),
      (''urad-rajma-other-dal_1'', ''Urad, Rajma & Other Dal''),
      (''cashews1'', ''Cashews & Dry Fruits''),
      (''tea-and-coffee'', ''Tea & Coffee''),
      (''ketchup-puree-pastes'', ''Ketchup, Puree & Pastes'')]"

definition last_segment :: "pystr \<Rightarrow> pystr" where
  \<comment> \<open>\<open>path.split('/')[-1]\<close>\<close>
  "last_segment path = rev (takeWhile (\<lambda>c. c \<noteq> 47) (rev path))"

definition get_category_name_from_url :: "rt \<Rightarrow> pystr \<Rightarrow> pystr" where
  \<comment> \<open>for a URL that is a bare path, as the category URLs are\<close>
  "get_category_name_from_url R url =
     (let name = last_segment url
      in case map_of (map (\<lambda>(k, v). (lit k, lit v)) category_map) name of
           Some v \<Rightarrow> v
         | None \<Rightarrow> title R (map (\<lambda>c. if c = 45 then 32 else c) name))"

text \<open>
  The packaging type of a listing draft:
  \<^verbatim>\<open>
  if any(keyword in product_name.lower() for keyword in ['frozen', 'freeze']):
      product.packaging_type = "Frozen"
  elif any(keyword in product_name.lower() for keyword in ['fresh', 'dairy']):
      product.packaging_type = "Fresh"
  elif category_name in ['Milk & Milk Powder', 'Cheese', 'Butter', 'Paneer', 'Cream', 'Curd/Yogurt']:
      product.packaging_type = "Chilled"
  elif category_name in ['Rice & Rice Products', 'Atta, Maida, Sooji', 'Salt & Sugar']:
      product.packaging_type = "Dry"
  \<close>
  It returns the new value of \<open>packaging_type\<close>; the empty string is the unset class.
\<close>

definition listing_packaging :: "rt \<Rightarrow> pystr \<Rightarrow> pystr \<Rightarrow> pystr" where
  "listing_packaging R name category_name =
     (if list_ex (\<lambda>keyword. py_in (lit keyword) (lower R name)) [''frozen'', ''freeze'']
        then lit ''Frozen''
      else if list_ex (\<lambda>keyword. py_in (lit keyword) (lower R name)) [''fresh'', ''dairy'']
        then lit ''Fresh''
      else if category_name \<in> set (map lit [''Milk & Milk Powder'', ''Cheese'', ''Butter'',
                                              ''Paneer'', ''Cream'', ''Curd/Yogurt''])
        then lit ''Chilled''
      else if category_name \<in> set (map lit [''Rice & Rice Products'', ''Atta, Maida, Sooji'',
                                              ''Salt & Sugar''])
        then lit ''Dry''
      else [])"

text \<open>
  The body of the loop that builds one draft from a \<open>(product_name, product_url)\<close>
  pair. \<open>text[a:b]\<close> is \<open>take (b - a) (drop a text)\<close>; the price is looked for in the
  300 code points around the first occurrence of the name.
\<close>

definition listing_product :: "rt \<Rightarrow> pystr \<Rightarrow> soup \<Rightarrow> pystr \<Rightarrow> pystr \<times> pystr \<Rightarrow> product" where
  "listing_product R now soup category_name link =
     (let name = fst link;
          p1 = Product(scraped_timestamp := now, category := category_name,
                       product_name := name, product_page_url := snd link,
                       unit_size := extract_unit_size R name);
          page_text = get_text soup;
          p2 = (case (if py_in name page_text then py_find page_text name else None) of
                  None \<Rightarrow> p1
                | Some name_index \<Rightarrow>
                    (let start = name_index - 100;
                         surrounding_text = take (name_index + 200 - start) (drop start page_text)
                     in case extract_price_info R surrounding_text of
                          (c, orig, d) \<Rightarrow>
                            p1(price_current := c, price_original := orig,
                               discount_percentage := d)));
          pk = listing_packaging R name category_name;
          p3 = (if pk = [] then p2 else p2(packaging_type := pk))
      in p3(availability_status := lit ''In Stock''))"

text \<open>
  The discovery of the links of a category page.
  \<^verbatim>\<open>
  for link in soup.find_all('a', href=True):
      href = link['href']
      if (href.startswith('/in/') and len(href.split('/')) >= 3 and
          not any(skip in href for skip in ['Menu-Addons', 'categories', 'search',
                                            'cart', 'login', 'register']) and
          href != category_url):
          full_url = urljoin(self.base_url, href)
          product_name = self.clean_text(link.get_text())
          if (product_name and len(product_name) > 5 and
              not any(skip in product_name.lower() for skip in [...]) and
              any(char.isalpha() for char in product_name)):
              product_links.append((product_name, full_url))
  product_links = list(set(product_links))
  \<close>
  \<open>len(href.split('/')) >= 3\<close> says that \<open>href\<close> has two slashes at least.
\<close>

definition href_ok :: "pystr \<Rightarrow> pystr \<Rightarrow> bool" where
  "href_ok category_url href \<longleftrightarrow>
     startswith href (lit ''/in/'') \<and> 2 \<le> length (filter (\<lambda>c. c = 47) href) \<and>
     \<not> list_ex (\<lambda>skip. py_in (lit skip) href)
           [''Menu-Addons'', ''categories'', ''search'', ''cart'', ''login'', ''register''] \<and>
     href \<noteq> category_url"

definition name_ok :: "rt \<Rightarrow> pystr \<Rightarrow> bool" where
  "name_ok R name \<longleftrightarrow>
     name \<noteq> [] \<and> 5 < length name \<and>
     \<not> list_ex (\<lambda>skip. py_in (lit skip) (lower R name))
           [''home'', ''login'', ''cart'', ''search'', ''categories'', ''how it works'',
            ''products'', ''faqs''] \<and>
     list_ex (isalpha R) name"

fun product_links :: "rt \<Rightarrow> pystr \<Rightarrow> (pystr \<times> pystr) list \<Rightarrow> exn + (pystr \<times> pystr) list" where
  "product_links R category_url [] = Inr []"
| "product_links R category_url ((href, text) # links) =
     (if href_ok category_url href then
        (case urljoin R base_url href of
           Inl e \<Rightarrow> Inl e
         | Inr full_url \<Rightarrow>
             (case product_links R category_url links of
                Inl e \<Rightarrow> Inl e
              | Inr found \<Rightarrow>
                  (if name_ok R (clean_text R text)
                   then Inr ((clean_text R text, full_url) # found) else Inr found)))
      else product_links R category_url links)"

definition extract_products_from_page ::
  "rt \<Rightarrow> pystr \<Rightarrow> soup \<Rightarrow> pystr \<Rightarrow> exn + product list"
where
  "extract_products_from_page R now soup category_url =
     (case product_links R category_url (a_tags soup) of
        Inl e \<Rightarrow> Inl e
      | Inr found \<Rightarrow>
          Inr (map (listing_product R now soup (get_category_name_from_url R category_url))
                   (set_order_links R found)))"


section \<open>The detail stage: \<open>scrape_product_details\<close>\<close>

subsection \<open>The fields read from the page\<close>

text \<open>
  The description: the patterns are tried in order; for the first whose longest match
  (\<open>max(matches, key=len)\<close>, the first of the longest) has more than 30 and fewer than
  500 code points, the cleaned match is the description and the loop ends.
\<close>

definition longest :: "pystr list \<Rightarrow> pystr" where
  "longest xs = foldl (\<lambda>best x. if length best < length x then x else best) (hd xs) (tl xs)"

fun find_description :: "rt \<Rightarrow> pystr \<Rightarrow> nat list \<Rightarrow> pystr option" where
  "find_description R page_text [] = None"
| "find_description R page_text (i # is) =
     (let matches = findall_desc R i page_text
      in if matches \<noteq> [] \<and> 30 < length (longest matches) \<and> length (longest matches) < 500
         then Some (clean_text R (longest matches))
         else find_description R page_text is)"

text \<open>
  The image: the first \<open>img\<close> whose \<open>src\<close> (or else \<open>data-src\<close>) names the site and an
  image extension; \<open>urljoin\<close> may raise.
\<close>

definition py_or :: "pystr option \<Rightarrow> pystr option \<Rightarrow> pystr option" where
  \<comment> \<open>\<open>a or b\<close> for two results of \<open>img.get\<close>\<close>
  "py_or a b = (case a of Some s \<Rightarrow> if s \<noteq> [] then Some s else b | None \<Rightarrow> b)"

definition image_src_ok :: "pystr \<Rightarrow> bool" where
  "image_src_ok src \<longleftrightarrow>
     src \<noteq> [] \<and>
     (py_in (lit ''assets.hyperpure.com'') src \<or> py_in (lit ''hyperpure.com'') src) \<and>
     list_ex (\<lambda>ext. py_in (lit ext) src) [''.jpg'', ''.jpeg'', ''.png'', ''.webp'']"

fun find_image :: "rt \<Rightarrow> (pystr option \<times> pystr option) list \<Rightarrow> exn + pystr option" where
  "find_image R [] = Inr None"
| "find_image R ((src, data_src) # images) =
     (case py_or src data_src of
        None \<Rightarrow> find_image R images
      | Some s \<Rightarrow>
          (if image_src_ok s
           then (case urljoin R base_url s of Inl e \<Rightarrow> Inl e | Inr u \<Rightarrow> Inr (Some u))
           else find_image R images))"

text \<open>
  The ingredients: the first pattern whose cleaned first group has more than 10 and
  fewer than 200 code points.
\<close>

fun find_ingredients :: "rt \<Rightarrow> pystr \<Rightarrow> nat list \<Rightarrow> pystr option" where
  "find_ingredients R page_text [] = None"
| "find_ingredients R page_text (i # is) =
     (case search_ingredients R i page_text of
        None \<Rightarrow> find_ingredients R page_text is
      | Some g \<Rightarrow>
          (if 10 < length (clean_text R g) \<and> length (clean_text R g) < 200
           then Some (clean_text R g)
           else find_ingredients R page_text is))"

text \<open>
  The tags:
  \<^verbatim>\<open>
  feature_keywords = ['premium', 'imported', 'handcrafted', 'frozen', 'fresh',
                      'organic', 'natural', 'quality']
  tags = []
  page_lower = page_text.lower()
  for keyword in feature_keywords:
      if keyword in page_lower:
          tags.append(keyword.title())
  if tags:
      product.tags = ";".join(list(set(tags)))  # Remove duplicates
  \<close>
  \<open>detected_tags\<close> is the list \<open>tags\<close>, in the order of detection; \<open>emitted_tags\<close> is
  \<open>list(set(tags))\<close>, the list that is joined.
\<close>

definition feature_keywords :: "string list" where
  "feature_keywords = [''premium'', ''imported'', ''handcrafted'', ''frozen'', ''fresh'',
                       ''organic'', ''natural'', ''quality'']"

definition detected_tags :: "rt \<Rightarrow> pystr \<Rightarrow> pystr list" where
  "detected_tags R page_text =
     map (\<lambda>keyword. title R (lit keyword))
         (filter (\<lambda>keyword. py_in (lit keyword) (lower R page_text)) feature_keywords)"

definition emitted_tags :: "rt \<Rightarrow> pystr \<Rightarrow> pystr list" where
  "emitted_tags R page_text = set_order R (detected_tags R page_text)"

subsection \<open>The enrichment of a draft\<close>

text \<open>
  The body of the \<open>try\<close> of \<open>scrape_product_details\<close>, statement by statement. An
  exception raised half-way (only \<open>urljoin\<close> can raise) is caught by
  \<open>except Exception\<close>, and the product is returned with the fields assigned so far;
  a \<open>KeyboardInterrupt\<close> is not caught.
  \<^verbatim>\<open>
  if not product.product_name:
      title = soup.find('title')
      if title:
          title_text = title.get_text()
          product.product_name = self.clean_text(title_text.split('|')[0].split(' Wholesalers')[0])
  h1_tag = soup.find('h1')
  if h1_tag and len(h1_tag.get_text().strip()) > len(product.product_name):
      product.product_name = self.clean_text(h1_tag.get_text())
  page_text = soup.get_text()
  (description)
  if not product.price_current:
      product.price_current, product.price_original, product.discount_percentage = \
          self.extract_price_info(page_text)
  (image) (ingredients) (tags)
  sku_match = re.search(r'/([a-zA-Z0-9\-_]+)(?:\?|$)', urlparse(product.product_page_url).path)
  if sku_match:
      product.sku_code = sku_match.group(1)
  if not product.unit_size:
      product.unit_size = self.extract_unit_size(page_text)
  \<close>
\<close>

definition enrich_name :: "rt \<Rightarrow> soup \<Rightarrow> product \<Rightarrow> product" where
  "enrich_name R soup product =
     (let p1 = (if product product_name = [] then
                  (case title_tag soup of
                     None \<Rightarrow> product
                   | Some title_text \<Rightarrow>
                       product(product_name :=
                         clean_text R (split_first (split_first title_text (lit ''|''))
                                                   (lit '' Wholesalers''))))
                else product)
      in case h1_tag soup of
           None \<Rightarrow> p1
         | Some h1_text \<Rightarrow>
             (if length (p1 product_name) < length (strip R h1_text)
              then p1(product_name := clean_text R h1_text) else p1))"

definition enrich_description_price :: "rt \<Rightarrow> soup \<Rightarrow> product \<Rightarrow> product" where
  "enrich_description_price R soup product =
     (let page_text = get_text soup;
          p1 = (case find_description R page_text [0, 1, 2, 3] of
                  None \<Rightarrow> product
                | Some d \<Rightarrow> product(product_description := d))
      in if p1 price_current = [] then
           (case extract_price_info R page_text of
              (c, orig, d) \<Rightarrow>
                p1(price_current := c, price_original := orig, discount_percentage := d))
         else p1)"

definition enrich_rest :: "rt \<Rightarrow> soup \<Rightarrow> pystr option \<Rightarrow> product \<Rightarrow> product" where
  "enrich_rest R soup img product =
     (let page_text = get_text soup;
          p1 = (case img of None \<Rightarrow> product | Some u \<Rightarrow> product(product_image_url := u));
          p2 = (case find_ingredients R page_text [0, 1, 2] of
                  None \<Rightarrow> p1
                | Some g \<Rightarrow> p1(ingredients := g));
          p3 = (if detected_tags R page_text \<noteq> []
                then p2(tags := join (lit '';'') (emitted_tags R page_text)) else p2);
          p4 = (case search_sku R (p3 product_page_url) of
                  None \<Rightarrow> p3
                | Some sku \<Rightarrow> p3(sku_code := sku))
      in if p4 unit_size = [] then p4(unit_size := extract_unit_size R page_text) else p4)"

definition enrich :: "rt \<Rightarrow> soup \<Rightarrow> product \<Rightarrow> exn + product" where
  "enrich R soup product =
     (let p = enrich_description_price R soup (enrich_name R soup product)
      in case find_image R (img_tags soup) of
           Inl e \<Rightarrow> (if e = KeyboardInterrupt then Inl e else Inr p)
         | Inr img \<Rightarrow> Inr (enrich_rest R soup img p))"

subsection \<open>\<open>scrape_product_details\<close>\<close>

text \<open>
  \<^verbatim>\<open>
  def scrape_product_details(self, product):
      if not product.product_page_url or product.product_page_url in self.scraped_urls:
          return product
      soup = self.safe_request(product.product_page_url)
      if not soup:
          return product
      self.scraped_urls.add(product.product_page_url)
      try: ...
      except Exception as e: ...
      return product
  \<close>
  A \<open>BeautifulSoup\<close> object is always true, so \<open>not soup\<close> is \<open>soup is None\<close>. An
  exception that leaves \<open>safe_request\<close> leaves this function too.
\<close>

definition scrape_product_details ::
  "rt \<Rightarrow> soup network \<Rightarrow> product \<Rightarrow> scraper \<Rightarrow> (exn + product) \<times> scraper"
where
  "scrape_product_details R net product s =
     (let url = product product_page_url
      in if url = [] \<or> url \<in> scraped_urls s then (Inr product, s)
         else
           (case safe_request net url 3 (requests s) of
              (Inl e, reqs) \<Rightarrow> (Inl e, s\<lparr>requests := reqs\<rparr>)
            | (Inr None, reqs) \<Rightarrow> (Inr product, s\<lparr>requests := reqs\<rparr>)
            | (Inr (Some soup), reqs) \<Rightarrow>
                (enrich R soup product,
                 s\<lparr>requests := reqs, scraped_urls := insert url (scraped_urls s)\<rparr>)))"


section \<open>The driver: \<open>scrape_all_products\<close>, \<open>save_to_csv\<close> and \<open>main\<close>\<close>

definition category_urls :: "pystr list" where
  "category_urls = map lit
     [''/in/Menu-Addons'', ''/in/brownies-cakes-and-lava'', ''/in/chicken-breast-boneless'',
      ''/in/cheese'', ''/in/curd'', ''/in/ghee'', ''/in/milk-milk-powder'', ''/in/butter'',
      ''/in/paneer'', ''/in/cream'', ''/in/eggs'', ''/in/tomato-onion-potato'',
      ''/in/edible-oils'', ''/in/salts-sugars'', ''/in/pasta-noodles'',
      ''/in/rice-rice-products'', ''/in/atta-maida-sooji'', ''/in/corn-flour-besan-others'',
      ''/in/urad-rajma-other-dal_1'', ''/in/cashews1'', ''/in/tea-and-coffee'',
      ''/in/ketchup-puree-pastes'']"

text \<open>
  \<^verbatim>\<open>
  def scrape_all_products(self):
      all_products = []
      for category_url in self.category_urls:
          try:
              full_url = urljoin(self.base_url, category_url)
              soup = self.safe_request(full_url)
              if not soup:
                  continue
              category_products = self.extract_products_from_page(soup, category_url)
              max_details = min(5, len(category_products))
              for i, product in enumerate(category_products[:max_details]):
                  detailed_product = self.scrape_product_details(product)
                  all_products.append(detailed_product)
                  time.sleep(random.uniform(1, 2))
              for product in category_products[max_details:]:
                  all_products.append(product)
          except Exception as e:
              continue
      self.products = all_products
      return self.products
  \<close>
  The entries are collected in the local list \<open>all_products\<close>; the attribute
  \<open>self.products\<close> is assigned once, behind the loop. Each loop returns the exception
  that ended it, if any, with the local list and the scraper as they are then.
\<close>

fun details_loop ::
  "rt \<Rightarrow> soup network \<Rightarrow> product list \<Rightarrow> product list \<Rightarrow> scraper
     \<Rightarrow> exn option \<times> product list \<times> scraper"
where
  "details_loop R net [] all_products s = (None, all_products, s)"
| "details_loop R net (product # rest) all_products s =
     (case scrape_product_details R net product s of
        (Inl e, s') \<Rightarrow> (Some e, all_products, s')
      | (Inr detailed_product, s') \<Rightarrow>
          details_loop R net rest (all_products @ [detailed_product]) s')"

definition scrape_category ::
  "rt \<Rightarrow> soup network \<Rightarrow> pystr \<Rightarrow> pystr \<Rightarrow> product list \<Rightarrow> scraper
     \<Rightarrow> exn option \<times> product list \<times> scraper"
where
  "scrape_category R net now category_url all_products s =
     (case urljoin R base_url category_url of
        Inl e \<Rightarrow> (Some e, all_products, s)
      | Inr full_url \<Rightarrow>
          (case safe_request net full_url 3 (requests s) of
             (Inl e, reqs) \<Rightarrow> (Some e, all_products, s\<lparr>requests := reqs\<rparr>)
           | (Inr None, reqs) \<Rightarrow> (None, all_products, s\<lparr>requests := reqs\<rparr>)
           | (Inr (Some soup), reqs) \<Rightarrow>
               (case extract_products_from_page R now soup category_url of
                  Inl e \<Rightarrow> (Some e, all_products, s\<lparr>requests := reqs\<rparr>)
                | Inr category_products \<Rightarrow>
                    (case details_loop R net (take 5 category_products) all_products
                            (s\<lparr>requests := reqs\<rparr>) of
                       (Some e, all_products', s') \<Rightarrow> (Some e, all_products', s')
                     | (None, all_products', s') \<Rightarrow>
                         (None, all_products' @ drop 5 category_products, s')))))"

fun categories_loop ::
  "rt \<Rightarrow> soup network \<Rightarrow> pystr \<Rightarrow> pystr list \<Rightarrow> product list \<Rightarrow> scraper
     \<Rightarrow> exn option \<times> product list \<times> scraper"
where
  "categories_loop R net now [] all_products s = (None, all_products, s)"
| "categories_loop R net now (category_url # rest) all_products s =
     (case scrape_category R net now category_url all_products s of
        (Some e, all_products', s') \<Rightarrow>
          (if e = KeyboardInterrupt then (Some e, all_products', s')
           else categories_loop R net now rest all_products' s')
      | (None, all_products', s') \<Rightarrow> categories_loop R net now rest all_products' s')"

definition scrape_all_products ::
  "rt \<Rightarrow> soup network \<Rightarrow> pystr \<Rightarrow> scraper \<Rightarrow> (exn + product list) \<times> scraper"
where
  "scrape_all_products R net now s =
     (case categories_loop R net now category_urls [] s of
        (Some e, all_products, s') \<Rightarrow> (Inl e, s')
      | (None, all_products, s') \<Rightarrow> (Inr all_products, s'\<lparr>products := all_products\<rparr>))"

text \<open>
  A written file is its name, its header row and its data rows; a cell is the string
  of the attribute (the quoting of \<open>csv.DictWriter\<close> is not modelled).
  \<^verbatim>\<open>
  def save_to_csv(self, filename):
      if not self.products:
          logger.error("No products to save")
          return
      with open(filename, 'w', newline='', encoding='utf-8') as csvfile:
          writer = csv.DictWriter(csvfile, fieldnames=fieldnames)
          writer.writeheader()
          for product in self.products:
              writer.writerow(product.to_dict())
  \<close>
\<close>

record csv_file =
  filename :: pystr
  header :: "field list"
  rows :: "pystr list list"

definition fieldnames :: "field list" where
  "fieldnames =
     [product_name, category, subcategory, price_current, price_original,
      discount_percentage, product_description, product_image_url, product_page_url,
      availability_status, brand_name, unit_size, packaging_type, nutritional_info,
      ingredients, product_id, sku_code, rating, review_count, tags, scraped_timestamp]"

definition save_to_csv :: "pystr \<Rightarrow> scraper \<Rightarrow> csv_file list" where
  "save_to_csv name s =
     (if products s = [] then []
      else [\<lparr> filename = name, header = fieldnames,
               rows = map (\<lambda>product. map product fieldnames) (products s) \<rparr>])"

text \<open>
  \<^verbatim>\<open>
  def main():
      scraper = HyperpureComprehensiveScraper()
      try:
          products = scraper.scrape_all_products()
          if products:
              filename = f"hyperpure_products_comprehensive_{timestamp}.csv"
              scraper.save_to_csv(filename)
              ...
      except KeyboardInterrupt:
          print("\nScraping interrupted. Saving partial data...")
          if scraper.products:
              filename = f"hyperpure_products_comprehensive_partial_{timestamp}.csv"
              scraper.save_to_csv(filename)
      except Exception as e: ...
  \<close>
  The value of \<open>main\<close> is the list of the files it writes; \<open>stamp\<close> is the time stamp
  of the file name.
\<close>

definition new_scraper :: scraper where
  "new_scraper = \<lparr> scraped_urls = {}, products = [], requests = [] \<rparr>"

definition main :: "rt \<Rightarrow> soup network \<Rightarrow> pystr \<Rightarrow> pystr \<Rightarrow> csv_file list" where
  "main R net now stamp =
     (case scrape_all_products R net now new_scraper of
        (Inr found, s) \<Rightarrow>
          (if found \<noteq> []
           then save_to_csv (lit ''hyperpure_products_comprehensive_'' @ stamp @ lit ''.csv'') s
           else [])
      | (Inl e, s) \<Rightarrow>
          (if e = KeyboardInterrupt then
             (if products s \<noteq> []
              then save_to_csv
                     (lit ''hyperpure_products_comprehensive_partial_'' @ stamp @ lit ''.csv'') s
              else [])
           else []))"

text \<open>
  A run for the examples: the first category page links one product, whose detail page
  answers; the operator interrupts during the next retrieval.
\<close>

definition brownie_href :: pystr where
  "brownie_href = lit ''/in/walnut-brownie''"

definition listing_page :: soup where
  "listing_page =
     \<lparr> title_tag = None, h1_tag = None,
       get_text = lit ''Walnut Brownie 80 gm '' @ rupee # lit ''199'',
       img_tags = [],
       a_tags = [(brownie_href, lit ''Walnut Brownie 80 gm'')] \<rparr>"

definition detail_page :: soup where
  "detail_page =
     \<lparr> title_tag = Some (lit ''Walnut Brownie | Hyperpure''), h1_tag = None,
       get_text = lit ''A premium imported brownie'', img_tags = [], a_tags = [] \<rparr>"

definition interrupted_net :: "soup network" where
  "interrupted_net n url =
     (if n = 0 then Content listing_page
      else if n = 1 then Content detail_page
      else Raises KeyboardInterrupt)"

text \<open>A draft whose page address is \<open>u\<close>.\<close>

definition brownie_draft :: product where
  "brownie_draft = Product(product_name := lit ''Walnut Brownie'', product_page_url := lit ''u'')"


section \<open>The PERFECT and the detailed scraper\<close>

subsection \<open>Packaging type from the page text\<close>

text \<open>
  \<^verbatim>\<open>
  packaging_keywords = {'frozen': 'Frozen', 'fresh': 'Fresh', 'chilled': 'Chilled',
                        'ambient': 'Ambient', 'dry': 'Dry'}
  lower_text = full_text.lower()
  for keyword, packaging_type in packaging_keywords.items():
      if keyword in lower_text:
          product.packaging_type = packaging_type
          break
  \<close>
  A \<open>dict\<close> lists its items in the order of insertion, so the table is an association
  list. The product is fresh at this point: its \<open>packaging_type\<close> is empty unless the
  loop assigns it.
\<close>

definition packaging_keywords :: "(string \<times> string) list" where
  "packaging_keywords =
     [(''frozen'', ''Frozen''), (''fresh'', ''Fresh''), (''chilled'', ''Chilled''),
      (''ambient'', ''Ambient''), (''dry'', ''Dry'')]"

fun first_keyword :: "pystr \<Rightarrow> (string \<times> string) list \<Rightarrow> pystr" where
  "first_keyword lower_text [] = []"
| "first_keyword lower_text ((keyword, packaging) # items) =
     (if py_in (lit keyword) lower_text then lit packaging
      else first_keyword lower_text items)"

definition perfect_packaging :: "rt \<Rightarrow> pystr \<Rightarrow> pystr" where
  "perfect_packaging R full_text = first_keyword (lower R full_text) packaging_keywords"

subsection \<open>The tags of the PERFECT scraper\<close>

text \<open>
  \<open>clean_text\<close> of the PERFECT scraper deletes, after the steps of the other one, every
  character outside a class:
  \<^verbatim>\<open>cleaned = re.sub(r'[^\w\s.,;:()\-...%/\[\]]+', '', cleaned)\<close>
  where the three characters between the hyphen and the per cent sign are U+00E2,
  U+201A and U+00B9 in the source file.
\<close>

definition keep_char :: "rt \<Rightarrow> nat \<Rightarrow> bool" where
  "keep_char R c \<longleftrightarrow>
     isword R c \<or> isspace R c \<or>
     c \<in> set [46, 44, 59, 58, 40, 41, 45, 226, 8218, 185, 37, 47, 91, 93]"

definition perfect_clean_text :: "rt \<Rightarrow> pystr \<Rightarrow> pystr" where
  "perfect_clean_text R text =
     (if text = [] then []
      else filter (keep_char R) (double_quotes (collapse_spaces R (strip R text))))"

text \<open>
  \<^verbatim>\<open>
  tags = []
  for selector in badge_selectors:
      elements = soup.select(selector)
      for elem in elements:
          if elem.name == 'img':
              tag_text = elem.get('alt', '')
          else:
              tag_text = self.clean_text(elem.get_text())
          if tag_text and len(tag_text) > 2 and tag_text not in tags:
              tags.append(tag_text)
  content_tags = []
  if 'premium' in full_text.lower():
      content_tags.append('Premium')
  if 'handcrafted' in full_text.lower() or 'hand-crafted' in full_text.lower():
      content_tags.append('Handcrafted')
  if 'imported' in full_text.lower():
      content_tags.append('Imported')
  if product.packaging_type:
      content_tags.append(product.packaging_type)
  tags.extend([tag for tag in content_tags if tag not in tags])
  \<close>
  An element that a selector finds is an \<open>img\<close> with its \<open>alt\<close> attribute (empty
  when it has none) or another element with its text. \<open>selected\<close> holds the elements
  found by each of the four selectors.
\<close>

datatype element = Img pystr | Elem pystr

definition tag_text :: "rt \<Rightarrow> element \<Rightarrow> pystr" where
  "tag_text R elem = (case elem of Img alt \<Rightarrow> alt | Elem t \<Rightarrow> perfect_clean_text R t)"

definition tag_ok :: "pystr \<Rightarrow> bool" where
  "tag_ok t \<longleftrightarrow> t \<noteq> [] \<and> 2 < length t"

fun badge_tags :: "rt \<Rightarrow> element list \<Rightarrow> pystr list \<Rightarrow> pystr list" where
  "badge_tags R [] found = found"
| "badge_tags R (elem # elems) found =
     badge_tags R elems
       (if tag_ok (tag_text R elem) \<and> tag_text R elem \<notin> set found
        then found @ [tag_text R elem] else found)"

definition content_tags :: "rt \<Rightarrow> pystr \<Rightarrow> pystr \<Rightarrow> pystr list" where
  "content_tags R full_text packaging =
     (if py_in (lit ''premium'') (lower R full_text) then [lit ''Premium''] else []) @
     (if py_in (lit ''handcrafted'') (lower R full_text)
         \<or> py_in (lit ''hand-crafted'') (lower R full_text)
      then [lit ''Handcrafted''] else []) @
     (if py_in (lit ''imported'') (lower R full_text) then [lit ''Imported''] else []) @
     (if packaging \<noteq> [] then [packaging] else [])"

definition perfect_tags :: "rt \<Rightarrow> element list list \<Rightarrow> pystr \<Rightarrow> pystr list" where
  "perfect_tags R selected full_text =
     (let found = badge_tags R (concat selected) [];
          content = content_tags R full_text (perfect_packaging R full_text)
      in found @ filter (\<lambda>t. t \<notin> set found) content)"

text \<open>
  What the specification asks of a tag list, in its own words: every detected string
  once, at the place of its first detection.
\<close>

fun first_detections :: "'a list \<Rightarrow> 'a list" where
  "first_detections [] = []"
| "first_detections (x # xs) = x # filter (\<lambda>y. y \<noteq> x) (first_detections xs)"

text \<open>
  One of the four keywords that the listing stage of the comprehensive scraper looks
  for is in the lower-cased product name.
\<close>

definition name_keyword :: "rt \<Rightarrow> pystr \<Rightarrow> bool" where
  "name_keyword R name \<longleftrightarrow>
     list_ex (\<lambda>keyword. py_in (lit keyword) (lower R name))
       [''frozen'', ''freeze'', ''fresh'', ''dairy'']"

subsection \<open>The loops that fill \<open>self.products\<close>\<close>

text \<open>
  \<^verbatim>\<open>
  # PERFECT scraper, scrape_all_perfect_products
  for i, product_url in enumerate(product_urls):
      try:
          perfect_product = self.extract_perfect_product_details(product_url)
          if perfect_product and perfect_product.product_name:
              self.products.append(perfect_product)
          else:
              logger.warning(...)
      except Exception as e:
          continue
  return self.products
  \<close>
  The extraction of one page is a parameter of the loop. It fetches the page with
  \<open>safe_request\<close> and touches neither \<open>self.products\<close> nor \<open>self.scraped_urls\<close>: it
  takes the URL and the log of requests and returns the product, \<open>None\<close>, or the
  exception it raises, with the new log. An instance of a dataclass is always true,
  so \<open>perfect_product and perfect_product.product_name\<close> asks for a product with a
  name that is not empty.
\<close>

type_synonym extraction = "pystr \<Rightarrow> pystr list \<Rightarrow> (exn + product option) \<times> pystr list"

fun perfect_loop :: "extraction \<Rightarrow> pystr list \<Rightarrow> scraper \<Rightarrow> exn option \<times> scraper" where
  "perfect_loop extract_perfect_product_details [] s = (None, s)"
| "perfect_loop extract_perfect_product_details (product_url # rest) s =
     (case extract_perfect_product_details product_url (requests s) of
        (Inl e, reqs) \<Rightarrow>
          (if e = KeyboardInterrupt then (Some e, s\<lparr>requests := reqs\<rparr>)
           else perfect_loop extract_perfect_product_details rest (s\<lparr>requests := reqs\<rparr>))
      | (Inr None, reqs) \<Rightarrow>
          perfect_loop extract_perfect_product_details rest (s\<lparr>requests := reqs\<rparr>)
      | (Inr (Some perfect_product), reqs) \<Rightarrow>
          perfect_loop extract_perfect_product_details rest
            (if perfect_product product_name \<noteq> []
             then s\<lparr>requests := reqs, products := products s @ [perfect_product]\<rparr>
             else s\<lparr>requests := reqs\<rparr>))"

definition scrape_all_perfect_products ::
  "extraction \<Rightarrow> pystr list \<Rightarrow> scraper \<Rightarrow> (exn + product list) \<times> scraper"
where
  "scrape_all_perfect_products extract_perfect_product_details product_urls s =
     (if product_urls = [] then (Inr [], s)
      else
        (case perfect_loop extract_perfect_product_details product_urls s of
           (Some e, s') \<Rightarrow> (Inl e, s')
         | (None, s') \<Rightarrow> (Inr (products s'), s')))"

text \<open>
  \<^verbatim>\<open>
  # detailed scraper, scrape_all_detailed_products
  for i, product_url in enumerate(product_links):
      try:
          product = DetailedProduct()
          product.product_page_url = product_url
          product.scraped_timestamp = datetime.now().isoformat()
          detailed_product = self.scrape_detailed_product_info(product)
          if detailed_product.product_name:
              self.products.append(detailed_product)
          else:
              logger.warning(...)
      except Exception as e:
          continue
  return self.products
  \<close>
  Here the extraction takes the fresh product, which is all empty but for the brand,
  the URL and the time stamp, and always returns a product; it reads and extends
  \<open>self.scraped_urls\<close> and the log of requests and leaves \<open>self.products\<close> alone.
\<close>

type_synonym detail_extraction =
  "product \<Rightarrow> pystr set \<times> pystr list \<Rightarrow> (exn + product) \<times> pystr set \<times> pystr list"

fun detailed_loop ::
  "detail_extraction \<Rightarrow> pystr \<Rightarrow> pystr list \<Rightarrow> scraper \<Rightarrow> exn option \<times> scraper"
where
  "detailed_loop scrape_detailed_product_info now [] s = (None, s)"
| "detailed_loop scrape_detailed_product_info now (product_url # rest) s =
     (case scrape_detailed_product_info
             (Product(product_page_url := product_url, scraped_timestamp := now))
             (scraped_urls s, requests s) of
        (Inl e, visited, reqs) \<Rightarrow>
          (if e = KeyboardInterrupt
           then (Some e, s\<lparr>scraped_urls := visited, requests := reqs\<rparr>)
           else detailed_loop scrape_detailed_product_info now rest
                  (s\<lparr>scraped_urls := visited, requests := reqs\<rparr>))
      | (Inr detailed_product, visited, reqs) \<Rightarrow>
          detailed_loop scrape_detailed_product_info now rest
            (if detailed_product product_name \<noteq> []
             then s\<lparr>scraped_urls := visited, requests := reqs,
                     products := products s @ [detailed_product]\<rparr>
             else s\<lparr>scraped_urls := visited, requests := reqs\<rparr>))"

definition scrape_all_detailed_products ::
  "detail_extraction \<Rightarrow> pystr \<Rightarrow> pystr list \<Rightarrow> scraper \<Rightarrow> (exn + product list) \<times> scraper"
where
  "scrape_all_detailed_products scrape_detailed_product_info now links s =
     (if links = [] then (Inr [], s)
      else
        (case detailed_loop scrape_detailed_product_info now links s of
           (Some e, s') \<Rightarrow> (Inl e, s')
         | (None, s') \<Rightarrow> (Inr (products s'), s')))"

text \<open>
  Extractions for the examples: a page whose heading gives the name only when the URL
  is \<open>named\<close>.
\<close>

definition named_only :: extraction where
  "named_only url reqs =
     (Inr (Some (PerfectProduct(product_page_url := url,
                   product_name := (if url = lit ''named'' then lit ''Paneer'' else [])))),
      reqs @ [url])"

definition named_only_detail :: detail_extraction where
  "named_only_detail product st =
     (Inr (product(product_name :=
             (if product product_page_url = lit ''named'' then lit ''Paneer'' else []))),
      insert (product product_page_url) (fst st), snd st @ [product product_page_url])"


section \<open>What the merge of the two stages relies on\<close>

text \<open>
  Facts about the runtime that the scraper takes for granted:
  \<^item> \<open>list(set(xs))\<close> lists every element of \<open>xs\<close> and none twice;
  \<^item> \<open>str.title\<close> of a keyword is not empty;
  \<^item> a match of a description pattern holds a character that is no white space (each
    pattern begins with a letter);
  \<^item> the group \<open>[a-zA-Z0-9\-_]+\<close> of the SKU pattern is not empty;
  \<^item> \<open>urljoin\<close> with the base URL of the site does not return the empty string.
\<close>

definition runtime_ok :: "rt \<Rightarrow> bool" where
  "runtime_ok R \<longleftrightarrow>
     (\<forall>xs. set (set_order R xs) = set xs \<and> distinct (set_order R xs)) \<and>
     (\<forall>xs. set (set_order_links R xs) = set xs \<and> distinct (set_order_links R xs)) \<and>
     (\<forall>keyword \<in> set feature_keywords. title R (lit keyword) \<noteq> []) \<and>
     (\<forall>i text. \<forall>m \<in> set (findall_desc R i text). \<exists>c \<in> set m. \<not> isspace R c) \<and>
     (\<forall>url sku. search_sku R url = Some sku \<longrightarrow> sku \<noteq> []) \<and>
     (\<forall>ref u. urljoin R base_url ref = Inr u \<longrightarrow> u \<noteq> [])"

text \<open>
  A draft of the listing stage has a name, and its three price fields come from one
  call of \<open>extract_price_info\<close>: without a current price there is neither an original
  price nor a discount.
\<close>

definition listing_draft :: "product \<Rightarrow> bool" where
  "listing_draft p \<longleftrightarrow>
     p product_name \<noteq> [] \<and>
     (p price_current = [] \<longrightarrow> p price_original = [] \<and> p discount_percentage = [])"

text \<open>The relation between a draft and the draft one step of the merge later.\<close>

definition fills :: "product \<Rightarrow> product \<Rightarrow> bool" where
  \<comment> \<open>but for the name, a field that differs in \<open>q\<close> is not empty in \<open>q\<close>\<close>
  "fills p q \<longleftrightarrow> (\<forall>f. f \<noteq> product_name \<longrightarrow> q f \<noteq> p f \<longrightarrow> q f \<noteq> [])"




text \<open>
  Two more drafts and detail pages, for the rule of the name. The heading of the first
  page holds a run of fifteen blanks between its two words; the heading of the second
  page holds a double quote (code point 34), which \<open>clean_text\<close> doubles.
\<close>

definition walnut_listing :: product where
  "walnut_listing = Product(product_name := lit ''Walnut Brownie 80 gm'', product_page_url := lit ''u'')"

definition spaced_heading :: pystr where
  "spaced_heading = lit ''Walnut'' @ replicate 15 32 @ lit ''Cake''"


definition inch_listing :: product where
  "inch_listing = Product(product_name := lit ''Brownie 6 inch'', product_page_url := lit ''u'')"

definition quoted_heading :: pystr where
  "quoted_heading = lit ''Brownie 6'' @ [34] @ lit '' 2pc''"


section \<open>Properties of the fetcher\<close>

declare safe_request_loop.simps [simp del]

lemma safe_request_loop_attempts:
  "length (snd (safe_request_loop net url max_retries attempt reqs))
     \<le> length reqs + nat (max_retries - attempt)"
proof (induction net url max_retries attempt reqs rule: safe_request_loop.induct)
  case (1 net url max_retries attempt reqs)
  show ?case
  proof (cases "attempt < max_retries")
    case False
    then show ?thesis by (simp add: safe_request_loop.simps [of net url max_retries attempt reqs])
  next
    case True
    show ?thesis
    proof (cases "net (length reqs) url")
      case (Content soup)
      with True show ?thesis
        by (simp add: safe_request_loop.simps [of net url max_retries attempt reqs])
    next
      case (Raises e)
      show ?thesis
      proof (cases "e = RequestException \<and> attempt \<noteq> max_retries - 1")
        case False
        with True Raises show ?thesis
          unfolding safe_request_loop.simps [of net url max_retries attempt reqs]
          by (cases e) auto
      next
        case rec: True
        from "1.IH" [OF True] Raises rec
        have "length (snd (safe_request_loop net url max_retries (attempt + 1) (reqs @ [url])))
                \<le> length (reqs @ [url]) + nat (max_retries - (attempt + 1))"
          by simp
        moreover have "safe_request_loop net url max_retries attempt reqs
                         = safe_request_loop net url max_retries (attempt + 1) (reqs @ [url])"
          using True Raises rec
          by (simp add: safe_request_loop.simps [of net url max_retries attempt reqs])
        ultimately show ?thesis using True by simp
      qed
    qed
  qed
qed

lemma safe_request_loop_success:
  "attempt + int k < max_retries \<Longrightarrow>
   (\<forall>j<k. net (length reqs + j) url = Raises RequestException) \<Longrightarrow>
   net (length reqs + k) url = Content c \<Longrightarrow>
   safe_request_loop net url max_retries attempt reqs
     = (Inr (Some c), reqs @ replicate (Suc k) url)"
proof (induction k arbitrary: attempt reqs)
  case 0
  then show ?case
    by (simp add: safe_request_loop.simps [of net url max_retries attempt reqs])
next
  case (Suc k)
  have fail: "net (length reqs) url = Raises RequestException"
    using Suc.prems(2) by (metis add.right_neutral zero_less_Suc)
  have later: "\<forall>j<k. net (length (reqs @ [url]) + j) url = Raises RequestException"
    using Suc.prems(2) by (metis Suc_less_eq add_Suc_shift length_append_singleton)
  have hit: "net (length (reqs @ [url]) + k) url = Content c"
    using Suc.prems(3) by simp
  have "safe_request_loop net url max_retries (attempt + 1) (reqs @ [url])
          = (Inr (Some c), (reqs @ [url]) @ replicate (Suc k) url)"
    using Suc.IH [of "attempt + 1" "reqs @ [url]"] Suc.prems(1) later hit by simp
  then show ?case
    using Suc.prems(1) fail
    by (simp add: safe_request_loop.simps [of net url max_retries attempt reqs]
          replicate_append_same)
qed

lemma safe_request_loop_exhausted:
  "attempt + int (Suc k) = max_retries \<Longrightarrow>
   (\<forall>j<Suc k. net (length reqs + j) url = Raises RequestException) \<Longrightarrow>
   safe_request_loop net url max_retries attempt reqs
     = (Inr None, reqs @ replicate (Suc k) url)"
proof (induction k arbitrary: attempt reqs)
  case 0
  then show ?case
    by (simp add: safe_request_loop.simps [of net url max_retries attempt reqs])
next
  case (Suc k)
  have fail: "net (length reqs) url = Raises RequestException"
    using Suc.prems(2) by (metis add.right_neutral zero_less_Suc)
  have later: "\<forall>j<Suc k. net (length (reqs @ [url]) + j) url = Raises RequestException"
    using Suc.prems(2) by (metis Suc_less_eq add_Suc_shift length_append_singleton)
  have "safe_request_loop net url max_retries (attempt + 1) (reqs @ [url])
          = (Inr None, (reqs @ [url]) @ replicate (Suc k) url)"
    using Suc.IH [of "attempt + 1" "reqs @ [url]"] Suc.prems(1) later by simp
  then show ?case
    using Suc.prems(1) fail
    by (simp add: safe_request_loop.simps [of net url max_retries attempt reqs]
          replicate_append_same)
qed

text \<open>
  Claim C3. For every URL and every \<open>max_retries \<ge> 1\<close>, \<open>safe_request\<close> makes at most
  \<open>max_retries\<close> retrieval attempts. If the attempts before the \<open>k\<close>-th fail with a
  \<open>RequestException\<close> and that one answers, within the bound, the call returns its
  parsed content and has made exactly those attempts; if all \<open>max_retries\<close> attempts
  fail, it returns \<open>None\<close> as a value (\<open>Inr None\<close>) and no exception leaves the call.
\<close>

theorem safe_request_retry:
  assumes "1 \<le> max_retries"
  shows "length (snd (safe_request net url max_retries reqs)) \<le> length reqs + nat max_retries
    \<and> (\<forall>k c. int k < max_retries
          \<and> (\<forall>j<k. net (length reqs + j) url = Raises RequestException)
          \<and> net (length reqs + k) url = Content c
        \<longrightarrow> safe_request net url max_retries reqs = (Inr (Some c), reqs @ replicate (Suc k) url))
    \<and> ((\<forall>j < nat max_retries. net (length reqs + j) url = Raises RequestException)
        \<longrightarrow> safe_request net url max_retries reqs
              = (Inr None, reqs @ replicate (nat max_retries) url))"
proof (intro conjI allI impI)
  show "length (snd (safe_request net url max_retries reqs)) \<le> length reqs + nat max_retries"
    using safe_request_loop_attempts [of net url max_retries 0 reqs]
    by (simp add: safe_request_def)
next
  fix k c
  assume "int k < max_retries
          \<and> (\<forall>j<k. net (length reqs + j) url = Raises RequestException)
          \<and> net (length reqs + k) url = Content c"
  then show "safe_request net url max_retries reqs = (Inr (Some c), reqs @ replicate (Suc k) url)"
    using safe_request_loop_success [of 0 k max_retries net reqs url c]
    by (simp add: safe_request_def)
next
  assume all: "\<forall>j < nat max_retries. net (length reqs + j) url = Raises RequestException"
  obtain k where k: "nat max_retries = Suc k"
    using assms by (cases "nat max_retries") auto
  then have "0 + int (Suc k) = max_retries" using assms by linarith
  then show "safe_request net url max_retries reqs
              = (Inr None, reqs @ replicate (nat max_retries) url)"
    using safe_request_loop_exhausted [of 0 k max_retries net reqs url] all k
    by (simp add: safe_request_def)
qed

theorem safe_request_retry_witness:
  "safe_request flaky (lit ''u'') 3 [] = (Inr (Some ()), replicate 3 (lit ''u''))
   \<and> safe_request down (lit ''u'') 3 [] = (Inr None, replicate 3 (lit ''u''))"
proof -
  have three: "(1::int) \<le> 3" by simp
  note hit = safe_request_retry [OF three, of flaky "lit ''u''" "[]",
                THEN conjunct2, THEN conjunct1, rule_format, of 2 "()"]
  note miss = safe_request_retry [OF three, of down "lit ''u''" "[]",
                THEN conjunct2, THEN conjunct2, rule_format]
  have "safe_request flaky (lit ''u'') 3 [] = (Inr (Some ()), [] @ replicate (Suc 2) (lit ''u''))"
    by (rule hit) (simp add: flaky_def)
  moreover have "safe_request down (lit ''u'') 3 [] = (Inr None, [] @ replicate (nat 3) (lit ''u''))"
    by (rule miss) (simp add: down_def)
  ultimately show ?thesis by (simp add: numeral_3_eq_3)
qed


section \<open>Properties of price extraction\<close>

lemma findall_price_Nil [simp]: "findall_price R [] = []"
  by (simp add: findall_price.simps [of R "[]"])

lemma pow2_pos: "0 < pow2 e"
  by (simp add: pow2_def)

lemma rne_nonneg: "0 \<le> q \<Longrightarrow> 0 \<le> rne q"
proof -
  assume q: "0 \<le> q"
  then have "0 \<le> \<lfloor>q\<rfloor>" by simp
  then show ?thesis by (auto simp: rne_def Let_def)
qed

lemma rnd_pos_nonneg: "0 < q \<Longrightarrow> rnd_pos q = PInf \<or> (\<exists>v. rnd_pos q = Fin v \<and> 0 \<le> v)"
proof -
  assume q: "0 < q"
  have "0 \<le> q / pow2 e" for e using q pow2_pos [of e] by simp
  then have "0 \<le> rne (q / pow2 e)" for e by (rule rne_nonneg)
  then have "0 \<le> (of_int (rne (q / pow2 e)) :: rat) * pow2 e" for e
    using pow2_pos [of e] by simp
  then show ?thesis by (auto simp: rnd_pos_def Let_def)
qed

lemma rnd_nonneg: "0 \<le> q \<Longrightarrow> rnd q = PInf \<or> (\<exists>v. rnd q = Fin v \<and> 0 \<le> v)"
  using rnd_pos_nonneg [of q] by (cases "q = 0") (auto simp: rnd_def)

lemma digits_value_nonneg: "0 \<le> digits_value R ds"
proof -
  have "0 \<le> n \<Longrightarrow> 0 \<le> foldl (\<lambda>n c. 10 * n + int (the (digit R c))) n ds" for n
    by (induction ds arbitrary: n) auto
  then show ?thesis by (simp add: digits_value_def)
qed

text \<open>An amount read by \<open>float\<close> is never negative and never NaN.\<close>

lemma py_float_nonneg:
  assumes "py_float R s = Inr x"
  shows "x = PInf \<or> (\<exists>v. x = Fin v \<and> 0 \<le> v)"
proof -
  define ip where "ip = takeWhile (isdigit R) s"
  define rest where "rest = drop (length ip) s"
  have "x = rnd (of_int (digits_value R ip))
        \<or> x = rnd (of_int (digits_value R (ip @ tl rest)) / 10 ^ length (tl rest))"
    using assms unfolding py_float_def Let_def ip_def [symmetric] rest_def [symmetric]
    by (auto split: if_splits)
  moreover have "(0::rat) \<le> of_int (digits_value R ip)"
    using digits_value_nonneg [of R ip] by simp
  moreover have "(0::rat) \<le> of_int (digits_value R (ip @ tl rest)) / 10 ^ length (tl rest)"
    using digits_value_nonneg [of R "ip @ tl rest"] by simp
  ultimately show ?thesis using rnd_nonneg by metis
qed

text \<open>So the divisor of the discount, being greater than an amount, is not zero.\<close>

lemma fgt_nonzero:
  assumes "x = PInf \<or> (\<exists>v. x = Fin v \<and> 0 \<le> v)" and "fgt y x"
  shows "y \<noteq> Fin 0"
  using assms by (cases y) auto

lemma extract_price_info_greater:
  assumes "findall_price R text = a # b # rest"
      and "py_float R (sub_rupee_comma (rupee # a)) = Inr x"
      and "py_float R (sub_rupee_comma (rupee # b)) = Inr y"
      and "fgt y x"
  shows "extract_price_info R text
           = (rupee # a, rupee # b, fmt1 (fmul (fdiv (fsub y x) y) (Fin 100)) @ lit ''%'')"
proof -
  have "text \<noteq> []" using assms(1) by auto
  moreover have "y \<noteq> Fin 0"
    using py_float_nonneg [OF assms(2)] assms(4) by (rule fgt_nonzero)
  ultimately show ?thesis
    using assms by (simp add: extract_price_info_def calculate_discount_def py_div_def)
qed

subsection \<open>Every amount that the scan finds can be read by \<open>float\<close>\<close>

text \<open>
  So the handler for \<open>ValueError\<close> is never entered, and \<open>amount_float\<close> is the value
  that \<open>float\<close> returns.
\<close>

lemma digit_run_digits: "\<forall>c \<in> set (digit_run R text). isdigit R c"
  by (auto simp: digit_run_def dest: set_takeWhileD)

lemma comma_groups_Cons:
  "comma_groups R (c # rest) =
     (if c = 44 \<and> digit_run R rest \<noteq> []
      then c # digit_run R rest @ comma_groups R (drop (length (digit_run R rest)) rest)
      else [])"
  by (subst comma_groups.simps) simp

lemma findall_price_Cons:
  "findall_price R (c # rest) =
     (if c = rupee \<and> digit_run R rest \<noteq> []
      then amount R rest # findall_price R (drop (length (amount R rest)) rest)
      else findall_price R rest)"
  by (subst findall_price.simps) simp

lemma comma_groups_chars: "\<forall>c \<in> set (comma_groups R t). c = 44 \<or> isdigit R c"
proof (induction R t rule: comma_groups.induct)
  case (1 R t)
  show ?case
  proof (cases t)
    case Nil
    then show ?thesis by (simp add: comma_groups.simps [of R "[]"])
  next
    case (Cons c rest)
    show ?thesis
    proof (cases "c = 44 \<and> digit_run R rest \<noteq> []")
      case True
      then have "\<forall>c \<in> set (comma_groups R (drop (length (digit_run R rest)) rest)).
                   c = 44 \<or> isdigit R c"
        using "1.IH" Cons by simp
      then show ?thesis
        unfolding Cons comma_groups_Cons
        using True digit_run_digits [of R rest] by auto
    next
      case False
      then show ?thesis unfolding Cons comma_groups_Cons by auto
    qed
  qed
qed

lemma fraction_shape:
  "fraction R text = [] \<or>
   (\<exists>ds. fraction R text = 46 # ds \<and> ds \<noteq> [] \<and> list_all (isdigit R) ds)"
  using digit_run_digits
  by (auto simp: fraction_def list_all_iff split: list.splits)

lemma amount_is_read:
  assumes "digits_ok R" and "digit_run R text \<noteq> []"
  shows "\<exists>x. py_float R (sub_rupee_comma (rupee # amount R text)) = Inr x"
proof -
  define ds where "ds = digit_run R text"
  define gs where "gs = comma_groups R (drop (length ds) text)"
  define fr where "fr = fraction R (drop (length ds + length gs) text)"
  define D where "D = ds @ filter (\<lambda>c. c \<noteq> rupee \<and> c \<noteq> 44) gs"
  have no_glyph: "c \<noteq> rupee \<and> c \<noteq> 44 \<and> c \<noteq> 46" if "isdigit R c" for c
    using assms(1) that by (auto simp: digits_ok_def)
  have ds: "\<forall>c \<in> set ds. isdigit R c" unfolding ds_def by (rule digit_run_digits)
  have gs: "\<forall>c \<in> set gs. c = 44 \<or> isdigit R c" unfolding gs_def by (rule comma_groups_chars)
  have D: "\<forall>c \<in> set D. isdigit R c" and "D \<noteq> []"
    using ds gs assms(2) by (auto simp: D_def ds_def)
  have "filter (\<lambda>c. c \<noteq> rupee \<and> c \<noteq> 44) ds = ds"
    using ds no_glyph by (auto intro: filter_True)
  moreover have "\<forall>c \<in> set fr. c \<noteq> rupee \<and> c \<noteq> 44"
  proof (cases "fr = []")
    case True
    then show ?thesis by simp
  next
    case False
    then obtain fs where "fr = 46 # fs" and "list_all (isdigit R) fs"
      using fraction_shape [of R "drop (length ds + length gs) text"]
      by (auto simp: fr_def [symmetric])
    then show ?thesis using no_glyph by (auto simp: list_all_iff rupee_def)
  qed
  then have "filter (\<lambda>c. c \<noteq> rupee \<and> c \<noteq> 44) fr = fr"
    by (auto intro: filter_True)
  ultimately have sub: "sub_rupee_comma (rupee # amount R text) = D @ fr"
    by (simp add: sub_rupee_comma_def amount_def Let_def ds_def [symmetric] gs_def [symmetric]
          fr_def [symmetric] D_def)
  have "takeWhile (isdigit R) fr = []"
    using fraction_shape [of R "drop (length ds + length gs) text"] assms(1)
    by (auto simp: fr_def [symmetric] digits_ok_def)
  then have ip: "takeWhile (isdigit R) (D @ fr) = D"
    using D by (simp add: takeWhile_append2)
  show ?thesis
    using fraction_shape [of R "drop (length ds + length gs) text"] \<open>D \<noteq> []\<close>
    by (auto simp: py_float_def Let_def sub ip fr_def [symmetric])
qed

lemma found_amounts_are_read:
  assumes "digits_ok R" and "m \<in> set (findall_price R t)"
  shows "\<exists>x. py_float R (sub_rupee_comma (rupee # m)) = Inr x"
  using assms
proof (induction R t rule: findall_price.induct)
  case (1 R t)
  show ?case
  proof (cases t)
    case Nil
    then show ?thesis using "1.prems" by (simp add: findall_price.simps [of R "[]"])
  next
    case (Cons c rest)
    show ?thesis
    proof (cases "c = rupee \<and> digit_run R rest \<noteq> []")
      case True
      then have "m = amount R rest
                 \<or> m \<in> set (findall_price R (drop (length (amount R rest)) rest))"
        using "1.prems"(2) Cons by (simp add: findall_price_Cons)
      then show ?thesis
        using amount_is_read [of R rest] "1.IH"(1) [OF Cons] "1.prems"(1) True by blast
    next
      case False
      then have "m \<in> set (findall_price R rest)"
        using "1.prems"(2) Cons by (auto simp: findall_price_Cons)
      then show ?thesis
        using "1.IH"(2) [OF Cons] "1.prems"(1) False by blast
    qed
  qed
qed

lemma amount_float_Inr:
  "py_float R (sub_rupee_comma (rupee # a)) = Inr x \<Longrightarrow> amount_float R a = x"
  by (simp add: amount_float_def)

lemma fgt_not_NaN: "fgt y x \<Longrightarrow> y \<noteq> NaN \<and> x \<noteq> NaN"
  by (cases y; cases x) auto

lemma amount_float_read:
  "amount_float R a \<noteq> NaN \<Longrightarrow> py_float R (sub_rupee_comma (rupee # a)) = Inr (amount_float R a)"
  by (auto simp: amount_float_def split: sum.splits)

text \<open>
  Claim C1, as the code has it. Let the first two rupee amounts of the text, in document
  order and with a repeated amount counted again, be \<open>a\<close> and \<open>b\<close>, and let the \<open>float\<close>
  value \<open>y\<close> of \<open>b\<close> be greater than the \<open>float\<close> value \<open>x\<close> of \<open>a\<close>. Then the current
  price is \<open>a\<close>, the original price is \<open>b\<close>, and the discount is the double
  \<open>(y - x) / y * 100\<close> printed with one decimal place and a trailing per cent sign.
\<close>

theorem extract_price_info_discount:
  assumes "findall_price R text = a # b # rest"
      and "fgt (amount_float R b) (amount_float R a)"
  shows "extract_price_info R text
           = (rupee # a, rupee # b,
              fmt1 (fmul (fdiv (fsub (amount_float R b) (amount_float R a)) (amount_float R b))
                         (Fin 100)) @ lit ''%'')"
proof -
  have "amount_float R b \<noteq> NaN" and "amount_float R a \<noteq> NaN"
    using fgt_not_NaN [OF assms(2)] by simp_all
  then show ?thesis
    using extract_price_info_greater [OF assms(1) amount_float_read amount_float_read assms(2)]
    by simp
qed

text \<open>The example of the specification: 199 and 249 rupees give 20.1 per cent.\<close>

theorem extract_price_info_discount_witness:
  "extract_price_info ascii_rt (rupee # lit ''199 ... '' @ rupee # lit ''249'')
     = (rupee # lit ''199'', rupee # lit ''249'', lit ''20.1%'')"
proof -
  have toks: "findall_price ascii_rt (rupee # lit ''199 ... '' @ rupee # lit ''249'')
                = lit ''199'' # lit ''249'' # []"
    by code_simp
  have cur: "amount_float ascii_rt (lit ''199'') = Fin 199"
    by code_simp
  have orig: "amount_float ascii_rt (lit ''249'') = Fin 249"
    by code_simp
  have gt: "fgt (amount_float ascii_rt (lit ''249'')) (amount_float ascii_rt (lit ''199''))"
    by (simp add: cur orig)
  have "fmt1 (fmul (fdiv (fsub (Fin 249) (Fin 199)) (Fin 249)) (Fin 100)) @ lit ''%''
          = lit ''20.1%''"
    by code_simp
  then show ?thesis
    using extract_price_info_discount [OF toks gt] by (simp add: cur orig)
qed

text \<open>
  Claim C1 as stated fails where the first amount is repeated: the text holds the two
  distinct amounts 199 and 249, yet the original price is the repeated 199 and no
  discount is computed.
\<close>

theorem extract_price_info_duplicate_counterexample:
  "extract_price_info ascii_rt (rupee # lit ''199 '' @ rupee # lit ''199 '' @ rupee # lit ''249'')
     = (rupee # lit ''199'', rupee # lit ''199'', [])"
  by code_simp

text \<open>
  The comparison is one of doubles: two amounts that differ beyond the precision of a
  double (here \<open>2\<^sup>5\<^sup>3\<close> and its successor) compare equal, and no discount is computed.
\<close>

lemma extract_price_info_precision_example:
  "extract_price_info ascii_rt
     (rupee # lit ''9007199254740992 '' @ rupee # lit ''9007199254740993'')
     = (rupee # lit ''9007199254740992'', rupee # lit ''9007199254740993'', [])"
  by code_simp

text \<open>
  Claim C2, as the code has it. When the \<open>float\<close> value of the second amount is not
  greater than that of the first, the current price is the first amount, the discount
  is empty, and the original price is the second amount all the same.
\<close>

theorem extract_price_info_no_discount:
  assumes "findall_price R text = a # b # rest"
      and "\<not> fgt (amount_float R b) (amount_float R a)"
  shows "extract_price_info R text = (rupee # a, rupee # b, [])"
proof -
  have "text \<noteq> []" using assms(1) by auto
  then show ?thesis
    using assms
    by (auto simp: extract_price_info_def calculate_discount_def amount_float_def
             split: sum.splits)
qed

theorem extract_price_info_no_discount_witness:
  "extract_price_info ascii_rt (rupee # lit ''1,299 now '' @ rupee # lit ''999.50'')
     = (rupee # lit ''1,299'', rupee # lit ''999.50'', [])"
proof -
  have toks: "findall_price ascii_rt (rupee # lit ''1,299 now '' @ rupee # lit ''999.50'')
                = lit ''1,299'' # lit ''999.50'' # []"
    by code_simp
  have cur: "amount_float ascii_rt (lit ''1,299'') = Fin 1299"
    by code_simp
  have orig: "amount_float ascii_rt (lit ''999.50'') = Fin (1999 / 2)"
    by code_simp
  have le: "\<not> fgt (amount_float ascii_rt (lit ''999.50'')) (amount_float ascii_rt (lit ''1,299''))"
    by (simp add: cur orig)
  show ?thesis
    by (rule extract_price_info_no_discount [OF toks le])
qed

text \<open>
  Claim C2 as stated fails on the example of the specification: for 249 rupees followed
  by 199 rupees the original price is not left empty.
\<close>

theorem extract_price_info_original_counterexample:
  "extract_price_info ascii_rt (rupee # lit ''249 ... '' @ rupee # lit ''199'')
     = (rupee # lit ''249'', rupee # lit ''199'', [])"
  by code_simp


section \<open>Properties of the detail stage\<close>

lemma safe_request_loop_log_grows:
  "length reqs \<le> length (snd (safe_request_loop net url max_retries attempt reqs))"
proof (induction net url max_retries attempt reqs rule: safe_request_loop.induct)
  case (1 net url max_retries attempt reqs)
  note unfold = safe_request_loop.simps [of net url max_retries attempt reqs]
  show ?case
  proof (cases "attempt < max_retries \<and> net (length reqs) url = Raises RequestException
                \<and> attempt \<noteq> max_retries - 1")
    case True
    then have "length (reqs @ [url])
                 \<le> length (snd (safe_request_loop net url max_retries (attempt + 1) (reqs @ [url])))"
      using "1.IH" by simp
    then show ?thesis using True unfolding unfold by simp
  next
    case False
    then show ?thesis unfolding unfold
      by (auto split: response.splits exn.splits)
  qed
qed

lemma safe_request_makes_attempt:
  assumes "0 < max_retries"
  shows "length reqs < length (snd (safe_request net url max_retries reqs))"
proof -
  note unfold = safe_request_loop.simps [of net url max_retries 0 reqs]
  have later: "length (reqs @ [url])
                 \<le> length (snd (safe_request_loop net url max_retries 1 (reqs @ [url])))"
    by (rule safe_request_loop_log_grows)
  show ?thesis
    unfolding safe_request_def unfold using assms later
    by (auto split: response.splits exn.splits)
qed

lemma down_fails: "safe_request down url 3 reqs = (Inr None, reqs @ [url, url, url])"
  by (simp add: safe_request_def safe_request_loop.simps down_def)

text \<open>
  Claim C10. If the fetch of the detail page returns \<open>None\<close>, \<open>scrape_product_details\<close>
  returns the product as it was given, the set of visited URLs and the list of products
  are unchanged, and a later call for the same fresh URL makes a retrieval attempt again.
\<close>

theorem scrape_product_details_fetch_failed:
  assumes "fst (safe_request net (product product_page_url) 3 (requests s)) = Inr None"
      and "scrape_product_details R net product s = (r, s')"
  shows "r = Inr product \<and> scraped_urls s' = scraped_urls s \<and> products s' = products s
         \<and> (product product_page_url \<noteq> [] \<and> product product_page_url \<notin> scraped_urls s
              \<longrightarrow> length (requests s')
                    < length (requests (snd (scrape_product_details R' net' product s'))))"
proof -
  obtain reqs where sr: "safe_request net (product product_page_url) 3 (requests s) = (Inr None, reqs)"
    using assms(1) by (cases "safe_request net (product product_page_url) 3 (requests s)") auto
  have first: "r = Inr product \<and> scraped_urls s' = scraped_urls s \<and> products s' = products s"
    using assms(2) sr by (auto simp: scrape_product_details_def Let_def split: if_splits)
  have "length (requests s') < length (requests (snd (scrape_product_details R' net' product s')))"
    if fresh: "product product_page_url \<noteq> []" "product product_page_url \<notin> scraped_urls s"
  proof -
    have "length (requests s')
            < length (snd (safe_request net' (product product_page_url) 3 (requests s')))"
      by (rule safe_request_makes_attempt) simp
    moreover have "product product_page_url \<notin> scraped_urls s'" using first fresh by simp
    ultimately show ?thesis
      using fresh
      by (auto simp: scrape_product_details_def Let_def split: prod.splits sum.splits option.splits)
  qed
  with first show ?thesis by blast
qed

theorem scrape_product_details_fetch_failed_witness:
  "scrape_product_details ascii_rt down brownie_draft new_scraper
     = (Inr brownie_draft, new_scraper\<lparr>requests := [lit ''u'', lit ''u'', lit ''u'']\<rparr>)
   \<and> length (requests (snd (scrape_product_details ascii_rt down brownie_draft
                               (new_scraper\<lparr>requests := [lit ''u'', lit ''u'', lit ''u'']\<rparr>)))) > 3"
proof -
  have url: "brownie_draft product_page_url = lit ''u''" by (simp add: brownie_draft_def)
  have failed: "fst (safe_request down (brownie_draft product_page_url) 3 (requests new_scraper))
                  = Inr None"
    by (simp add: down_fails)
  have run: "scrape_product_details ascii_rt down brownie_draft new_scraper
               = (Inr brownie_draft, new_scraper\<lparr>requests := [lit ''u'', lit ''u'', lit ''u'']\<rparr>)"
    by (simp add: scrape_product_details_def Let_def url down_fails new_scraper_def lit_def)
  show ?thesis
    using scrape_product_details_fetch_failed [OF failed run, of ascii_rt down] run
    by (simp add: url new_scraper_def lit_def)
qed

lemma scrape_product_details_mono:
  "scraped_urls s \<subseteq> scraped_urls (snd (scrape_product_details R net product s))"
  by (auto simp: scrape_product_details_def Let_def split: prod.splits sum.splits option.splits)

lemma details_loop_mono:
  "scraped_urls s \<subseteq> scraped_urls (snd (snd (details_loop R net ps all_products s)))"
proof (induction ps arbitrary: all_products s)
  case Nil
  then show ?case by simp
next
  case (Cons p ps)
  obtain r s' where step: "scrape_product_details R net p s = (r, s')"
    by (cases "scrape_product_details R net p s")
  have one: "scraped_urls s \<subseteq> scraped_urls s'"
    using scrape_product_details_mono [of s R net p] step by simp
  show ?case
  proof (cases r)
    case (Inl e)
    then show ?thesis using step one by simp
  next
    case (Inr d)
    then show ?thesis
      using step one Cons.IH [where all_products = "all_products @ [d]" and s = s'] by auto
  qed
qed

lemma scrape_category_mono:
  "scraped_urls s \<subseteq> scraped_urls (snd (snd (scrape_category R net now u all_products s)))"
proof -
  have loop: "x \<in> scraped_urls s'"
    if "x \<in> scraped_urls s"
      and "details_loop R net ps all_products (s\<lparr>requests := reqs\<rparr>) = (e, a, s')"
    for reqs ps e a s' x
    using details_loop_mono [of "s\<lparr>requests := reqs\<rparr>" R net ps all_products] that by auto
  show ?thesis
    unfolding scrape_category_def
    by (auto split: sum.splits prod.splits option.splits dest: loop)
qed

lemma categories_loop_mono:
  "scraped_urls s \<subseteq> scraped_urls (snd (snd (categories_loop R net now us all_products s)))"
proof (induction us arbitrary: all_products s)
  case Nil
  then show ?case by simp
next
  case (Cons u us)
  obtain e a s' where step: "scrape_category R net now u all_products s = (e, a, s')"
    by (cases "scrape_category R net now u all_products s") auto
  have one: "scraped_urls s \<subseteq> scraped_urls s'"
    using scrape_category_mono [of s R net now u all_products] step by simp
  show ?case
    using step one Cons.IH [where all_products = a and s = s'] by (cases e) auto
qed

lemma scrape_all_products_mono:
  "scraped_urls s \<subseteq> scraped_urls (snd (scrape_all_products R net now s))"
  using categories_loop_mono [of s R net now category_urls "[]"]
  by (auto simp: scrape_all_products_def split: prod.splits option.splits)

text \<open>
  Claim C4. A call of \<open>scrape_product_details\<close> never removes a URL from the visited
  set; a call whose URL is in the set returns at once, with the product and the
  scraper as they were and so without a retrieval attempt; and when the page of a URL
  has been fetched the URL is in the set afterwards. A whole run of
  \<open>scrape_all_products\<close> only adds to the set.
\<close>

theorem scraped_urls_visit_once:
  assumes "scrape_product_details R net product s = (r, s')"
  shows "scraped_urls s \<subseteq> scraped_urls s'
         \<and> (product product_page_url \<in> scraped_urls s \<longrightarrow> r = Inr product \<and> s' = s)
         \<and> (\<forall>soup. product product_page_url \<noteq> []
               \<and> fst (safe_request net (product product_page_url) 3 (requests s)) = Inr (Some soup)
              \<longrightarrow> product product_page_url \<in> scraped_urls s')
         \<and> scraped_urls s \<subseteq> scraped_urls (snd (scrape_all_products R net now s))"
proof (intro conjI allI impI)
  show "scraped_urls s \<subseteq> scraped_urls s'"
    using scrape_product_details_mono [of s R net product] assms by simp
  show "scraped_urls s \<subseteq> scraped_urls (snd (scrape_all_products R net now s))"
    by (rule scrape_all_products_mono)
next
  assume "product product_page_url \<in> scraped_urls s"
  then show "r = Inr product" and "s' = s"
    using assms by (simp_all add: scrape_product_details_def)
next
  fix soup
  assume "product product_page_url \<noteq> []
          \<and> fst (safe_request net (product product_page_url) 3 (requests s)) = Inr (Some soup)"
  then show "product product_page_url \<in> scraped_urls s'"
    using assms
    by (auto simp: scrape_product_details_def Let_def split: if_splits prod.splits)
qed


theorem scraped_urls_visit_once_witness:
  "scrape_product_details ascii_rt down brownie_draft
       (new_scraper\<lparr>scraped_urls := {lit ''u''}\<rparr>)
     = (Inr brownie_draft, new_scraper\<lparr>scraped_urls := {lit ''u''}\<rparr>)
   \<and> lit ''u'' \<in> scraped_urls (snd (scrape_product_details ascii_rt interrupted_net
                                       brownie_draft new_scraper))"
proof -
  have url: "brownie_draft product_page_url = lit ''u''" by (simp add: brownie_draft_def)
  let ?s = "new_scraper\<lparr>scraped_urls := {lit ''u''}\<rparr>"
  let ?visited = "scrape_product_details ascii_rt down brownie_draft ?s"
  let ?fresh = "scrape_product_details ascii_rt interrupted_net brownie_draft new_scraper"
  have seen: "brownie_draft product_page_url \<in> scraped_urls ?s" by (simp add: url)
  have fetched: "brownie_draft product_page_url \<noteq> []
      \<and> fst (safe_request interrupted_net (brownie_draft product_page_url) 3 (requests new_scraper))
          = Inr (Some listing_page)"
    by (simp add: url lit_def safe_request_def safe_request_loop.simps interrupted_net_def
          new_scraper_def)
  have "fst ?visited = Inr brownie_draft \<and> snd ?visited = ?s"
    using scraped_urls_visit_once [of ascii_rt down brownie_draft ?s "fst ?visited" "snd ?visited"]
      seen by simp
  moreover have "brownie_draft product_page_url \<in> scraped_urls (snd ?fresh)"
    using scraped_urls_visit_once [of ascii_rt interrupted_net brownie_draft new_scraper
            "fst ?fresh" "snd ?fresh"] fetched by simp
  ultimately show ?thesis by (simp add: url prod_eq_iff)
qed


section \<open>Properties of the driver\<close>

lemma scrape_product_details_products:
  "products (snd (scrape_product_details R net product s)) = products s"
  by (auto simp: scrape_product_details_def Let_def split: prod.splits sum.splits option.splits)

lemma details_loop_products:
  "products (snd (snd (details_loop R net ps all_products s))) = products s"
proof (induction ps arbitrary: all_products s)
  case Nil
  then show ?case by simp
next
  case (Cons p ps)
  obtain r s' where step: "scrape_product_details R net p s = (r, s')"
    by (cases "scrape_product_details R net p s")
  have one: "products s' = products s"
    using scrape_product_details_products [of R net p s] step by simp
  show ?case
  proof (cases r)
    case (Inl e)
    then show ?thesis using step one by simp
  next
    case (Inr d)
    then show ?thesis
      using step one Cons.IH [where all_products = "all_products @ [d]" and s = s'] by simp
  qed
qed

lemma scrape_category_products:
  "products (snd (snd (scrape_category R net now u all_products s))) = products s"
proof -
  have loop: "products s' = products s"
    if "details_loop R net ps all_products (s\<lparr>requests := reqs\<rparr>) = (e, a, s')"
    for reqs ps e a s'
    using details_loop_products [of R net ps all_products "s\<lparr>requests := reqs\<rparr>"] that by simp
  show ?thesis
    unfolding scrape_category_def
    by (auto split: sum.splits prod.splits option.splits dest: loop)
qed

lemma categories_loop_products:
  "products (snd (snd (categories_loop R net now us all_products s))) = products s"
proof (induction us arbitrary: all_products s)
  case Nil
  then show ?case by simp
next
  case (Cons u us)
  obtain e a s' where step: "scrape_category R net now u all_products s = (e, a, s')"
    by (cases "scrape_category R net now u all_products s") auto
  have one: "products s' = products s"
    using scrape_category_products [of R net now u all_products s] step by simp
  show ?case
    using step one Cons.IH [where all_products = a and s = s'] by (cases e) auto
qed

text \<open>
  Whatever had been collected, a run of \<open>scrape_all_products\<close> that an exception ends
  leaves \<open>self.products\<close> as it found it, and \<open>main\<close> then writes no file at all.
\<close>

lemma scrape_all_products_interrupted:
  assumes "fst (scrape_all_products R net now s) = Inl e"
  shows "products (snd (scrape_all_products R net now s)) = products s"
  using assms categories_loop_products [of R net now category_urls "[]" s]
  by (auto simp: scrape_all_products_def split: prod.splits option.splits)

lemma main_interrupted:
  assumes "fst (scrape_all_products R net now new_scraper) = Inl e"
  shows "main R net now stamp = []"
proof -
  have "products (snd (scrape_all_products R net now new_scraper)) = []"
    using scrape_all_products_interrupted [OF assms] by (simp add: new_scraper_def)
  then show ?thesis
    using assms by (auto simp: main_def split: prod.splits sum.splits)
qed

text \<open>
  Claim C8, on the comprehensive scraper. The run below is interrupted after one entry
  has been assembled: the local list holds it, and \<open>main\<close> writes no file, neither rows
  nor header. (The scrapers that append to \<open>self.products\<close> inside the loop do save
  the entries collected so far.)
\<close>

theorem main_interrupt_discards_entries:
  "(case categories_loop ascii_rt interrupted_net (lit ''t'') category_urls [] new_scraper of
      (e, all_products, s) \<Rightarrow> (e, map (\<lambda>p. p product_name) all_products))
     = (Some KeyboardInterrupt, [lit ''Walnut Brownie 80 gm''])
   \<and> main ascii_rt interrupted_net (lit ''t'') (lit ''t'') = []"
  by code_simp


section \<open>Properties of the packaging classification\<close>

lemma first_keyword_none:
  "(\<forall>item \<in> set items. \<not> py_in (lit (fst item)) lower_text) \<Longrightarrow>
   first_keyword lower_text items = []"
  by (induction items) auto

lemma first_keyword_first:
  "i < length items \<Longrightarrow> py_in (lit (fst (items ! i))) lower_text \<Longrightarrow>
   (\<forall>j<i. \<not> py_in (lit (fst (items ! j))) lower_text) \<Longrightarrow>
   first_keyword lower_text items = lit (snd (items ! i))"
proof (induction items arbitrary: i)
  case Nil
  then show ?case by simp
next
  case (Cons item items)
  obtain keyword packaging where item: "item = (keyword, packaging)" by (cases item)
  show ?case
  proof (cases i)
    case 0
    then show ?thesis using Cons.prems item by simp
  next
    case (Suc k)
    have "\<not> py_in (lit keyword) lower_text"
      using Cons.prems(3) Suc item by (metis fst_conv nth_Cons_0 zero_less_Suc)
    moreover have "first_keyword lower_text items = lit (snd (items ! k))"
    proof (rule Cons.IH)
      show "k < length items" using Cons.prems(1) Suc by simp
      show "py_in (lit (fst (items ! k))) lower_text" using Cons.prems(2) Suc by simp
      show "\<forall>j<k. \<not> py_in (lit (fst (items ! j))) lower_text"
        using Cons.prems(3) Suc by (metis Suc_less_eq nth_Cons_Suc)
    qed
    ultimately show ?thesis using item Suc by simp
  qed
qed

text \<open>
  Claim C6, as the code has it. The classification is a function of its text. In the
  PERFECT scraper the lower-cased page text is tested for the keywords frozen, fresh,
  chilled, ambient and dry, in this order; the first keyword that is present gives
  the class, and without any of them the class stays empty. That scraper has no
  category default. In the listing stage of the comprehensive scraper the lower-cased
  product name is tested for frozen, freeze, fresh and dairy only:
  \<^item> with frozen or freeze in the name the class is Frozen, whatever the category and
    whatever else is in the name;
  \<^item> otherwise, with fresh or dairy in the name the class is Fresh, whatever the
    category;
  \<^item> with none of the four in the name, the class is Chilled in the categories
    \<^verbatim>\<open>Milk & Milk Powder\<close>, \<^verbatim>\<open>Cheese\<close>, \<^verbatim>\<open>Butter\<close>, \<^verbatim>\<open>Paneer\<close>, \<^verbatim>\<open>Cream\<close> and
    \<^verbatim>\<open>Curd/Yogurt\<close>, Dry in the categories \<^verbatim>\<open>Rice & Rice Products\<close>,
    \<^verbatim>\<open>Atta, Maida, Sooji\<close> and \<^verbatim>\<open>Salt & Sugar\<close>, and empty in every other category;
  \<^item> two names that agree on each of the four tests have the same class in the same
    category: no other keyword (chilled, ambient, dry) is looked for.
\<close>

theorem packaging_classification:
  "map fst packaging_keywords = [''frozen'', ''fresh'', ''chilled'', ''ambient'', ''dry'']
   \<and> (\<forall>i < length packaging_keywords.
         py_in (lit (fst (packaging_keywords ! i))) (lower R full_text)
         \<and> (\<forall>j<i. \<not> py_in (lit (fst (packaging_keywords ! j))) (lower R full_text))
         \<longrightarrow> perfect_packaging R full_text = lit (snd (packaging_keywords ! i)))
   \<and> ((\<forall>item \<in> set packaging_keywords. \<not> py_in (lit (fst item)) (lower R full_text))
         \<longrightarrow> perfect_packaging R full_text = [])
   \<and> (name_keyword R name
         \<longrightarrow> listing_packaging R name category_name = listing_packaging R name other_category
             \<and> listing_packaging R name category_name \<in> {lit ''Frozen'', lit ''Fresh''})
   \<and> (listing_packaging R name category_name \<in> {lit ''Chilled'', lit ''Dry''}
         \<longrightarrow> \<not> name_keyword R name)
   \<and> (name_keyword R name \<longleftrightarrow>
          py_in (lit ''frozen'') (lower R name) \<or> py_in (lit ''freeze'') (lower R name)
          \<or> py_in (lit ''fresh'') (lower R name) \<or> py_in (lit ''dairy'') (lower R name))
   \<and> (py_in (lit ''frozen'') (lower R name) \<or> py_in (lit ''freeze'') (lower R name)
         \<longrightarrow> listing_packaging R name category_name = lit ''Frozen'')
   \<and> (\<not> py_in (lit ''frozen'') (lower R name) \<and> \<not> py_in (lit ''freeze'') (lower R name)
        \<and> (py_in (lit ''fresh'') (lower R name) \<or> py_in (lit ''dairy'') (lower R name))
         \<longrightarrow> listing_packaging R name category_name = lit ''Fresh'')
   \<and> (\<not> name_keyword R name
        \<and> category_name \<in> {lit ''Milk & Milk Powder'', lit ''Cheese'', lit ''Butter'',
                              lit ''Paneer'', lit ''Cream'', lit ''Curd/Yogurt''}
         \<longrightarrow> listing_packaging R name category_name = lit ''Chilled'')
   \<and> (\<not> name_keyword R name
        \<and> category_name \<in> {lit ''Rice & Rice Products'', lit ''Atta, Maida, Sooji'',
                              lit ''Salt & Sugar''}
         \<longrightarrow> listing_packaging R name category_name = lit ''Dry'')
   \<and> (\<not> name_keyword R name
        \<and> category_name \<notin> {lit ''Milk & Milk Powder'', lit ''Cheese'', lit ''Butter'',
                              lit ''Paneer'', lit ''Cream'', lit ''Curd/Yogurt'',
                              lit ''Rice & Rice Products'', lit ''Atta, Maida, Sooji'',
                              lit ''Salt & Sugar''}
         \<longrightarrow> listing_packaging R name category_name = [])
   \<and> ((\<forall>keyword \<in> {''frozen'', ''freeze'', ''fresh'', ''dairy''}.
           py_in (lit keyword) (lower R name) = py_in (lit keyword) (lower R other_name))
         \<longrightarrow> listing_packaging R name category_name
             = listing_packaging R other_name category_name)"
proof (intro conjI allI impI)
  show "map fst packaging_keywords = [''frozen'', ''fresh'', ''chilled'', ''ambient'', ''dry'']"
    by (simp add: packaging_keywords_def)
next
  fix i
  assume "i < length packaging_keywords"
    and "py_in (lit (fst (packaging_keywords ! i))) (lower R full_text)
         \<and> (\<forall>j<i. \<not> py_in (lit (fst (packaging_keywords ! j))) (lower R full_text))"
  then show "perfect_packaging R full_text = lit (snd (packaging_keywords ! i))"
    unfolding perfect_packaging_def by (intro first_keyword_first) auto
next
  assume "\<forall>item \<in> set packaging_keywords. \<not> py_in (lit (fst item)) (lower R full_text)"
  then show "perfect_packaging R full_text = []"
    unfolding perfect_packaging_def by (rule first_keyword_none)
next
  assume "name_keyword R name"
  then show "listing_packaging R name category_name = listing_packaging R name other_category"
    and "listing_packaging R name category_name \<in> {lit ''Frozen'', lit ''Fresh''}"
    by (auto simp: name_keyword_def listing_packaging_def)
next
  assume "listing_packaging R name category_name \<in> {lit ''Chilled'', lit ''Dry''}"
  then show "\<not> name_keyword R name"
    by (auto simp: name_keyword_def listing_packaging_def lit_def split: if_splits)
next
  show "name_keyword R name \<longleftrightarrow>
          py_in (lit ''frozen'') (lower R name) \<or> py_in (lit ''freeze'') (lower R name)
          \<or> py_in (lit ''fresh'') (lower R name) \<or> py_in (lit ''dairy'') (lower R name)"
    by (simp add: name_keyword_def)
next
  assume "py_in (lit ''frozen'') (lower R name) \<or> py_in (lit ''freeze'') (lower R name)"
  then show "listing_packaging R name category_name = lit ''Frozen''"
    by (simp add: listing_packaging_def)
next
  assume "\<not> py_in (lit ''frozen'') (lower R name) \<and> \<not> py_in (lit ''freeze'') (lower R name)
        \<and> (py_in (lit ''fresh'') (lower R name) \<or> py_in (lit ''dairy'') (lower R name))"
  then show "listing_packaging R name category_name = lit ''Fresh''"
    by (simp add: listing_packaging_def)
next
  assume "\<not> name_keyword R name
        \<and> category_name \<in> {lit ''Milk & Milk Powder'', lit ''Cheese'', lit ''Butter'',
                              lit ''Paneer'', lit ''Cream'', lit ''Curd/Yogurt''}"
  then show "listing_packaging R name category_name = lit ''Chilled''"
    by (simp add: name_keyword_def listing_packaging_def)
next
  assume dry: "\<not> name_keyword R name
        \<and> category_name \<in> {lit ''Rice & Rice Products'', lit ''Atta, Maida, Sooji'',
                              lit ''Salt & Sugar''}"
  then have "category_name \<notin> {lit ''Milk & Milk Powder'', lit ''Cheese'', lit ''Butter'',
                              lit ''Paneer'', lit ''Cream'', lit ''Curd/Yogurt''}"
    by (auto simp: lit_def)
  then show "listing_packaging R name category_name = lit ''Dry''"
    using dry by (simp add: name_keyword_def listing_packaging_def)
next
  assume "\<not> name_keyword R name
        \<and> category_name \<notin> {lit ''Milk & Milk Powder'', lit ''Cheese'', lit ''Butter'',
                              lit ''Paneer'', lit ''Cream'', lit ''Curd/Yogurt'',
                              lit ''Rice & Rice Products'', lit ''Atta, Maida, Sooji'',
                              lit ''Salt & Sugar''}"
  then show "listing_packaging R name category_name = []"
    by (simp add: name_keyword_def listing_packaging_def)
next
  assume "\<forall>keyword \<in> {''frozen'', ''freeze'', ''fresh'', ''dairy''}.
           py_in (lit keyword) (lower R name) = py_in (lit keyword) (lower R other_name)"
  then show "listing_packaging R name category_name
             = listing_packaging R other_name category_name"
    by (simp add: listing_packaging_def)
qed

theorem packaging_classification_witness:
  "perfect_packaging ascii_rt (lit ''Fresh Chilled Paneer'') = lit ''Fresh''
   \<and> perfect_packaging ascii_rt (lit ''Walnut Brownie'') = []
   \<and> listing_packaging ascii_rt (lit ''Fresh Paneer'') (lit ''Paneer'') = lit ''Fresh''
   \<and> \<not> name_keyword ascii_rt (lit ''Malai Paneer'')
   \<and> listing_packaging ascii_rt (lit ''Fresh Frozen Peas'') (lit ''Paneer'') = lit ''Frozen''
   \<and> listing_packaging ascii_rt (lit ''Dairy Whitener'') (lit ''Salt & Sugar'') = lit ''Fresh''
   \<and> listing_packaging ascii_rt (lit ''Malai Paneer'') (lit ''Paneer'') = lit ''Chilled''
   \<and> listing_packaging ascii_rt (lit ''Basmati Rice'') (lit ''Rice & Rice Products'') = lit ''Dry''
   \<and> listing_packaging ascii_rt (lit ''Walnut Brownie'') (lit ''Menu Addons'') = []
   \<and> listing_packaging ascii_rt (lit ''Chilled Dry Ambient Rice'') (lit ''Rice & Rice Products'')
       = listing_packaging ascii_rt (lit ''Basmati Rice'') (lit ''Rice & Rice Products'')"
proof -
  note perfect = packaging_classification [of ascii_rt _ "lit ''Fresh Paneer''" "lit ''Paneer''" "lit ''Cheese''"]
  have "perfect_packaging ascii_rt (lit ''Fresh Chilled Paneer'') = lit (snd (packaging_keywords ! 1))"
  proof (rule perfect [of "lit ''Fresh Chilled Paneer''", THEN conjunct2, THEN conjunct1, rule_format])
    show "1 < length packaging_keywords" by (simp add: packaging_keywords_def)
    show "py_in (lit (fst (packaging_keywords ! 1))) (lower ascii_rt (lit ''Fresh Chilled Paneer''))
          \<and> (\<forall>j<1. \<not> py_in (lit (fst (packaging_keywords ! j)))
                        (lower ascii_rt (lit ''Fresh Chilled Paneer'')))"
      by (simp add: packaging_keywords_def) code_simp
  qed
  then have one: "perfect_packaging ascii_rt (lit ''Fresh Chilled Paneer'') = lit ''Fresh''"
    by (simp add: packaging_keywords_def)
  have none: "\<forall>item \<in> set packaging_keywords.
            \<not> py_in (lit (fst item)) (lower ascii_rt (lit ''Walnut Brownie''))"
    by (simp add: packaging_keywords_def) code_simp
  have two: "perfect_packaging ascii_rt (lit ''Walnut Brownie'') = []"
    using perfect [of "lit ''Walnut Brownie''", THEN conjunct2, THEN conjunct2, THEN conjunct1]
      none by blast
  have kw: "name_keyword ascii_rt (lit ''Fresh Paneer'')" by code_simp
  have "listing_packaging ascii_rt (lit ''Fresh Paneer'') (lit ''Paneer'')
          \<in> {lit ''Frozen'', lit ''Fresh''}"
    using perfect [of "[]" "[]", THEN conjunct2, THEN conjunct2, THEN conjunct2, THEN conjunct1] kw
    by blast
  moreover have "listing_packaging ascii_rt (lit ''Fresh Paneer'') (lit ''Paneer'') \<noteq> lit ''Frozen''"
    by code_simp
  ultimately have three: "listing_packaging ascii_rt (lit ''Fresh Paneer'') (lit ''Paneer'') = lit ''Fresh''"
    by blast
  have chilled: "listing_packaging ascii_rt (lit ''Malai Paneer'') (lit ''Paneer'')
                   \<in> {lit ''Chilled'', lit ''Dry''}"
    by code_simp
  have four: "\<not> name_keyword ascii_rt (lit ''Malai Paneer'')"
    using packaging_classification [of ascii_rt "[]" "lit ''Malai Paneer''" "lit ''Paneer''" "[]" "[]",
            THEN conjunct2, THEN conjunct2, THEN conjunct2, THEN conjunct2, THEN conjunct1] chilled
    by blast
  note listing = packaging_classification [of ascii_rt "[]" _ _ "[]",
      THEN conjunct2, THEN conjunct2, THEN conjunct2, THEN conjunct2, THEN conjunct2, THEN conjunct2]
  have frozen: "py_in (lit ''frozen'') (lower ascii_rt (lit ''Fresh Frozen Peas''))
                \<or> py_in (lit ''freeze'') (lower ascii_rt (lit ''Fresh Frozen Peas''))"
    by code_simp
  have five: "listing_packaging ascii_rt (lit ''Fresh Frozen Peas'') (lit ''Paneer'') = lit ''Frozen''"
    using listing [of "lit ''Fresh Frozen Peas''" "lit ''Paneer''" "[]", THEN conjunct1] frozen
    by blast
  have dairy: "\<not> py_in (lit ''frozen'') (lower ascii_rt (lit ''Dairy Whitener''))
               \<and> \<not> py_in (lit ''freeze'') (lower ascii_rt (lit ''Dairy Whitener''))
               \<and> (py_in (lit ''fresh'') (lower ascii_rt (lit ''Dairy Whitener''))
                  \<or> py_in (lit ''dairy'') (lower ascii_rt (lit ''Dairy Whitener'')))"
    by code_simp
  have six: "listing_packaging ascii_rt (lit ''Dairy Whitener'') (lit ''Salt & Sugar'') = lit ''Fresh''"
    using listing [of "lit ''Dairy Whitener''" "lit ''Salt & Sugar''" "[]",
            THEN conjunct2, THEN conjunct1] dairy
    by blast
  have paneer: "\<not> name_keyword ascii_rt (lit ''Malai Paneer'')
        \<and> lit ''Paneer'' \<in> {lit ''Milk & Milk Powder'', lit ''Cheese'', lit ''Butter'',
                              lit ''Paneer'', lit ''Cream'', lit ''Curd/Yogurt''}"
    by code_simp
  have seven: "listing_packaging ascii_rt (lit ''Malai Paneer'') (lit ''Paneer'') = lit ''Chilled''"
    using listing [of "lit ''Malai Paneer''" "lit ''Paneer''" "[]",
            THEN conjunct2, THEN conjunct2, THEN conjunct1] paneer
    by (rule mp)
  have rice: "\<not> name_keyword ascii_rt (lit ''Basmati Rice'')
        \<and> lit ''Rice & Rice Products'' \<in> {lit ''Rice & Rice Products'', lit ''Atta, Maida, Sooji'',
                              lit ''Salt & Sugar''}"
    by code_simp
  have eight: "listing_packaging ascii_rt (lit ''Basmati Rice'') (lit ''Rice & Rice Products'') = lit ''Dry''"
    using listing [of "lit ''Basmati Rice''" "lit ''Rice & Rice Products''" "[]",
            THEN conjunct2, THEN conjunct2, THEN conjunct2, THEN conjunct1] rice
    by (rule mp)
  have addons: "\<not> name_keyword ascii_rt (lit ''Walnut Brownie'')
        \<and> lit ''Menu Addons'' \<notin> {lit ''Milk & Milk Powder'', lit ''Cheese'', lit ''Butter'',
                              lit ''Paneer'', lit ''Cream'', lit ''Curd/Yogurt'',
                              lit ''Rice & Rice Products'', lit ''Atta, Maida, Sooji'',
                              lit ''Salt & Sugar''}"
    by code_simp
  have nine: "listing_packaging ascii_rt (lit ''Walnut Brownie'') (lit ''Menu Addons'') = []"
    using listing [of "lit ''Walnut Brownie''" "lit ''Menu Addons''" "[]",
            THEN conjunct2, THEN conjunct2, THEN conjunct2, THEN conjunct2, THEN conjunct1] addons
    by (rule mp)
  have agree: "\<forall>keyword \<in> {''frozen'', ''freeze'', ''fresh'', ''dairy''}.
           py_in (lit keyword) (lower ascii_rt (lit ''Chilled Dry Ambient Rice''))
           = py_in (lit keyword) (lower ascii_rt (lit ''Basmati Rice''))"
    by simp code_simp
  have ten: "listing_packaging ascii_rt (lit ''Chilled Dry Ambient Rice'') (lit ''Rice & Rice Products'')
       = listing_packaging ascii_rt (lit ''Basmati Rice'') (lit ''Rice & Rice Products'')"
    using listing [of "lit ''Chilled Dry Ambient Rice''" "lit ''Rice & Rice Products''" "lit ''Basmati Rice''",
            THEN conjunct2, THEN conjunct2, THEN conjunct2, THEN conjunct2, THEN conjunct2] agree
    by (rule mp)
  from one two three four five six seven eight nine ten show ?thesis by blast
qed

text \<open>
  Claim C6 as stated fails in the scraper that has category defaults: the keyword
  chilled of the table is in the text, and the class is the default of the category.
\<close>

theorem packaging_default_counterexample:
  "listing_packaging ascii_rt (lit ''Chilled Basmati Rice'') (lit ''Rice & Rice Products'') = lit ''Dry''
   \<and> py_in (lit ''chilled'') (lower ascii_rt (lit ''Chilled Basmati Rice''))"
  by code_simp


section \<open>Nameless records\<close>

lemma perfect_loop_names:
  "(\<forall>p \<in> set (products s). p product_name \<noteq> []) \<Longrightarrow>
   (\<forall>p \<in> set (products (snd (perfect_loop ex urls s))). p product_name \<noteq> [])"
proof (induction urls arbitrary: s)
  case Nil
  then show ?case by simp
next
  case (Cons url urls)
  obtain r reqs where step: "ex url (requests s) = (r, reqs)" by (cases "ex url (requests s)")
  have skip: "\<forall>p \<in> set (products (snd (perfect_loop ex urls (s\<lparr>requests := reqs\<rparr>)))).
                p product_name \<noteq> []"
    using Cons.prems by (intro Cons.IH) simp
  show ?case
  proof (cases r)
    case (Inl e)
    then show ?thesis using step skip Cons.prems by (cases "e = KeyboardInterrupt") auto
  next
    case (Inr found)
    show ?thesis
    proof (cases found)
      case None
      then show ?thesis using step Inr skip by simp
    next
      case (Some perfect_product)
      show ?thesis
      proof (cases "perfect_product product_name = []")
        case True
        then show ?thesis using step Inr Some skip by simp
      next
        case False
        have "\<forall>p \<in> set (products (snd (perfect_loop ex urls
                  (s\<lparr>requests := reqs, products := products s @ [perfect_product]\<rparr>)))).
                p product_name \<noteq> []"
          using Cons.prems False by (intro Cons.IH) simp
        then show ?thesis using step Inr Some False by simp
      qed
    qed
  qed
qed

lemma detailed_loop_names:
  "(\<forall>p \<in> set (products s). p product_name \<noteq> []) \<Longrightarrow>
   (\<forall>p \<in> set (products (snd (detailed_loop ex now urls s))). p product_name \<noteq> [])"
proof (induction urls arbitrary: s)
  case Nil
  then show ?case by simp
next
  case (Cons url urls)
  obtain r visited reqs
    where step: "ex (Product(product_page_url := url, scraped_timestamp := now))
                    (scraped_urls s, requests s) = (r, visited, reqs)"
    by (cases "ex (Product(product_page_url := url, scraped_timestamp := now))
                  (scraped_urls s, requests s)") auto
  have skip: "\<forall>p \<in> set (products (snd (detailed_loop ex now urls
                  (s\<lparr>scraped_urls := visited, requests := reqs\<rparr>)))). p product_name \<noteq> []"
    using Cons.prems by (intro Cons.IH) simp
  show ?case
  proof (cases r)
    case (Inl e)
    then show ?thesis using step skip Cons.prems by (cases "e = KeyboardInterrupt") auto
  next
    case (Inr detailed_product)
    show ?thesis
    proof (cases "detailed_product product_name = []")
      case True
      then show ?thesis using step Inr skip by simp
    next
      case False
      have "\<forall>p \<in> set (products (snd (detailed_loop ex now urls
                (s\<lparr>scraped_urls := visited, requests := reqs,
                    products := products s @ [detailed_product]\<rparr>)))). p product_name \<noteq> []"
        using Cons.prems False by (intro Cons.IH) simp
      then show ?thesis using step Inr False by simp
    qed
  qed
qed

text \<open>
  Claim C9. Whatever the extraction of a page returns, every product that the loop
  of the PERFECT scraper and the loop of the detailed scraper put into
  \<open>self.products\<close>, the list that is written out, has a name that is not empty.
\<close>

theorem nameless_never_persisted:
  "(\<forall>p \<in> set (products (snd (scrape_all_perfect_products ex product_urls new_scraper))).
      p product_name \<noteq> [])
   \<and> (\<forall>p \<in> set (products (snd (scrape_all_detailed_products ex_detail now links new_scraper))).
      p product_name \<noteq> [])"
proof
  have start: "\<forall>p \<in> set (products new_scraper). p product_name \<noteq> []"
    by (simp add: new_scraper_def)
  show "\<forall>p \<in> set (products (snd (scrape_all_perfect_products ex product_urls new_scraper))).
          p product_name \<noteq> []"
    using perfect_loop_names [OF start, of ex product_urls] start
    by (auto simp: scrape_all_perfect_products_def split: prod.splits option.splits)
  show "\<forall>p \<in> set (products (snd (scrape_all_detailed_products ex_detail now links new_scraper))).
          p product_name \<noteq> []"
    using detailed_loop_names [OF start, of ex_detail now links] start
    by (auto simp: scrape_all_detailed_products_def split: prod.splits option.splits)
qed

theorem nameless_never_persisted_witness:
  "map (\<lambda>p. p product_name)
       (products (snd (scrape_all_perfect_products named_only
                         [lit ''nameless'', lit ''named''] new_scraper))) = [lit ''Paneer'']
   \<and> hd (products (snd (scrape_all_perfect_products named_only
                         [lit ''nameless'', lit ''named''] new_scraper))) product_name \<noteq> []
   \<and> map (\<lambda>p. p product_name)
       (products (snd (scrape_all_detailed_products named_only_detail (lit ''t'')
                         [lit ''nameless'', lit ''named''] new_scraper))) = [lit ''Paneer'']
   \<and> hd (products (snd (scrape_all_detailed_products named_only_detail (lit ''t'')
                         [lit ''nameless'', lit ''named''] new_scraper))) product_name \<noteq> []"
proof -
  let ?perfect = "products (snd (scrape_all_perfect_products named_only
                                   [lit ''nameless'', lit ''named''] new_scraper))"
  let ?detailed = "products (snd (scrape_all_detailed_products named_only_detail (lit ''t'')
                                   [lit ''nameless'', lit ''named''] new_scraper))"
  have one: "map (\<lambda>p. p product_name) ?perfect = [lit ''Paneer'']"
    by (simp add: scrape_all_perfect_products_def named_only_def new_scraper_def lit_def)
  have two: "map (\<lambda>p. p product_name) ?detailed = [lit ''Paneer'']"
    by (simp add: scrape_all_detailed_products_def named_only_detail_def new_scraper_def
          Product_def lit_def)
  have "hd ?perfect \<in> set ?perfect" using one by (cases ?perfect) auto
  then have named: "hd ?perfect product_name \<noteq> []"
    using nameless_never_persisted [of named_only "[lit ''nameless'', lit ''named'']"]
    by blast
  have "hd ?detailed \<in> set ?detailed" using two by (cases ?detailed) auto
  then have named': "hd ?detailed product_name \<noteq> []"
    using nameless_never_persisted [of _ _ named_only_detail "lit ''t''" "[lit ''nameless'', lit ''named'']"]
    by blast
  from one two named named' show ?thesis by blast
qed


section \<open>The tags of the PERFECT scraper\<close>

lemma set_first_detections [simp]: "set (first_detections xs) = set xs"
  by (induction xs) auto

lemma distinct_first_detections [simp]: "distinct (first_detections xs)"
  by (induction xs) auto

lemma first_detections_append:
  "first_detections (xs @ ys) = first_detections xs @ filter (\<lambda>y. y \<notin> set xs) (first_detections ys)"
proof (induction xs)
  case Nil
  then show ?case by simp
next
  case (Cons x xs)
  have "filter (\<lambda>y. y \<noteq> x) (filter (\<lambda>y. y \<notin> set xs) (first_detections ys))
          = filter (\<lambda>y. y \<notin> set (x # xs)) (first_detections ys)"
    by (auto intro: filter_cong)
  then show ?case using Cons by simp
qed

lemma first_detections_distinct: "distinct xs \<Longrightarrow> first_detections xs = xs"
proof (induction xs)
  case Nil
  then show ?case by simp
next
  case (Cons x xs)
  then have "filter (\<lambda>y. y \<noteq> x) xs = xs" by (auto intro: filter_True)
  then show ?case using Cons by simp
qed

lemma badge_tags_first_detections:
  "badge_tags R elems found
     = found @ filter (\<lambda>t. t \<notin> set found)
                 (first_detections (filter tag_ok (map (tag_text R) elems)))"
proof (induction elems arbitrary: found)
  case Nil
  then show ?case by simp
next
  case (Cons elem elems)
  let ?t = "tag_text R elem"
  let ?rest = "first_detections (filter tag_ok (map (tag_text R) elems))"
  show ?case
  proof (cases "tag_ok ?t")
    case False
    then show ?thesis using Cons.IH [of found] by simp
  next
    case ok: True
    show ?thesis
    proof (cases "?t \<in> set found")
      case True
      have "filter (\<lambda>t. t \<notin> set found) (filter (\<lambda>y. y \<noteq> ?t) ?rest)
              = filter (\<lambda>t. t \<notin> set found) ?rest"
        using True by (auto intro: filter_cong)
      then show ?thesis using Cons.IH [of found] ok True by simp
    next
      case False
      have "filter (\<lambda>t. t \<notin> set (found @ [?t])) ?rest
              = filter (\<lambda>t. t \<notin> set found) (filter (\<lambda>y. y \<noteq> ?t) ?rest)"
        by (auto intro: filter_cong)
      then show ?thesis using Cons.IH [of "found @ [?t]"] ok False by simp
    qed
  qed
qed

lemma first_keyword_class:
  "first_keyword lower_text items \<in> insert [] (set (map (\<lambda>item. lit (snd item)) items))"
proof (induction items)
  case Nil
  then show ?case by simp
next
  case (Cons item items)
  obtain keyword packaging where item: "item = (keyword, packaging)" by (cases item)
  show ?case
  proof (cases "py_in (lit keyword) lower_text")
    case True
    then show ?thesis using item by simp
  next
    case False
    then have "first_keyword lower_text (item # items) = first_keyword lower_text items"
      using item by simp
    then show ?thesis using Cons by auto
  qed
qed

lemma content_tags_distinct: "distinct (content_tags R full_text (perfect_packaging R full_text))"
proof -
  have "perfect_packaging R full_text
          \<in> {[], lit ''Frozen'', lit ''Fresh'', lit ''Chilled'', lit ''Ambient'', lit ''Dry''}"
    using first_keyword_class [of "lower R full_text" packaging_keywords]
    by (auto simp: perfect_packaging_def packaging_keywords_def)
  then show ?thesis
    by (auto simp: content_tags_def lit_def)
qed

text \<open>
  The tag list of the PERFECT scraper keeps the order of detection: the badge texts in
  the order of the page, then the keyword tags, each string once, at its first
  detection.
\<close>

lemma perfect_tags_first_detections:
  "perfect_tags R selected full_text
     = first_detections (filter tag_ok (map (tag_text R) (concat selected))
                         @ content_tags R full_text (perfect_packaging R full_text))
   \<and> distinct (perfect_tags R selected full_text)"
proof -
  let ?cands = "filter tag_ok (map (tag_text R) (concat selected))"
  let ?content = "content_tags R full_text (perfect_packaging R full_text)"
  have found: "badge_tags R (concat selected) [] = first_detections ?cands"
    by (simp add: badge_tags_first_detections)
  have "perfect_tags R selected full_text
          = first_detections ?cands @ filter (\<lambda>t. t \<notin> set ?cands) ?content"
    by (simp add: perfect_tags_def Let_def found)
  also have "\<dots> = first_detections (?cands @ ?content)"
    by (simp add: first_detections_append first_detections_distinct content_tags_distinct)
  finally have eq: "perfect_tags R selected full_text = first_detections (?cands @ ?content)" .
  then show ?thesis by simp
qed

section \<open>The tags of the comprehensive scraper\<close>

text \<open>
  The emitted tags are the detected tags, each once, in the order of the \<open>set\<close>.
\<close>

lemma emitted_tags_permutation:
  assumes "runtime_ok R"
  shows "distinct (emitted_tags R page_text)
         \<and> set (emitted_tags R page_text) = set (detected_tags R page_text)"
  using assms by (simp add: runtime_ok_def emitted_tags_def)

text \<open>
  Claim C7 asks for the order of first detection. The comprehensive scraper detects
  Premium before Imported on the page below and passes the list through
  \<open>list(set(tags))\<close>; in a process whose \<open>set\<close> lists Imported first, the record says
  \<open>Imported;Premium\<close>.
\<close>

theorem comprehensive_tags_order_lost:
  "detected_tags ascii_rt (get_text detail_page) = [lit ''Premium'', lit ''Imported'']
   \<and> emitted_tags ascii_rt (get_text detail_page) = [lit ''Imported'', lit ''Premium'']
   \<and> (case enrich ascii_rt detail_page brownie_draft of
         Inl e \<Rightarrow> []
       | Inr p \<Rightarrow> p tags) = lit ''Imported;Premium''"
  by code_simp


section \<open>The merge of a detail page into a listing draft\<close>

subsection \<open>Cleaned text is not empty\<close>





subsection \<open>The values read from the page are not empty\<close>








lemma extract_price_info_without_current:
  "extract_price_info R text = (c, orig, d) \<Longrightarrow> c = [] \<Longrightarrow> orig = [] \<and> d = []"
  by (auto simp: extract_price_info_def Let_def split: if_splits list.splits sum.splits)

subsection \<open>Each step fills fields and erases none\<close>




lemma fills_name: "fills p (p(product_name := v))"
  by (simp add: fills_def)









subsection \<open>Drafts of the listing stage\<close>

lemma product_links_named:
  "product_links R category_url links = Inr found \<Longrightarrow> \<forall>link \<in> set found. name_ok R (fst link)"
proof (induction links arbitrary: found)
  case Nil
  then show ?case by simp
next
  case (Cons link links)
  obtain href label where link: "link = (href, label)" by (cases link)
  show ?case
    using Cons link
    by (auto split: if_splits sum.splits)
qed

lemma listing_product_draft:
  assumes "name_ok R (fst link)"
  shows "listing_draft (listing_product R now soup category_name link)"
proof -
  have name: "fst link \<noteq> []" using assms by (simp add: name_ok_def)
  have prices: "c = [] \<longrightarrow> orig = [] \<and> d = []"
    if "extract_price_info R t = (c, orig, d)" for t c orig d
    using extract_price_info_without_current [OF that] by simp
  show ?thesis
    unfolding listing_draft_def listing_product_def Let_def
    using name
    by (auto simp: Product_def split: option.splits prod.splits dest: prices)
qed

lemma extract_products_from_page_drafts:
  assumes "runtime_ok R"
      and "extract_products_from_page R now soup category_url = Inr category_products"
  shows "\<forall>p \<in> set category_products. listing_draft p"
proof -
  obtain found where found: "product_links R category_url (a_tags soup) = Inr found"
    and ps: "category_products
               = map (listing_product R now soup (get_category_name_from_url R category_url))
                     (set_order_links R found)"
    using assms(2) by (auto simp: extract_products_from_page_def split: sum.splits)
  have "set (set_order_links R found) = set found"
    using assms(1) by (simp add: runtime_ok_def)
  then have "\<forall>link \<in> set (set_order_links R found). name_ok R (fst link)"
    using product_links_named [OF found] by simp
  then show ?thesis
    unfolding ps by (auto intro: listing_product_draft)
qed





lemma merge_name_drafts: "listing_draft walnut_listing \<and> listing_draft inch_listing"
  by (simp add: listing_draft_def walnut_listing_def inch_listing_def Product_def lit_def)

lemma merge_name_lengths:
  "length (walnut_listing product_name) = 20
   \<and> length (strip ascii_rt spaced_heading) = 25
   \<and> length (clean_text ascii_rt spaced_heading) = 11
   \<and> length (inch_listing product_name) = 14
   \<and> length (strip ascii_rt quoted_heading) = 14
   \<and> length (clean_text ascii_rt quoted_heading) = 15"
  by code_simp

end
